theory Spec2Isabelle
  imports Main
begin

section \<open>JavaScript values used by the gamification routes\<close>

text \<open>
  The counters and point totals are JavaScript numbers stored as properties of plain
  objects, and the keys of those objects are user ids and activity types taken from the
  request. A key that was never written reads as \<open>undefined\<close>, unless it names one of the
  twelve properties every plain object inherits from \<open>Object.prototype\<close>: then it reads as
  that built-in function, or, for \<open>__proto__\<close>, as \<open>Object.prototype\<close> itself. Arithmetic
  on \<open>undefined\<close> gives \<open>NaN\<close>, and \<open>+\<close> with a function or an object concatenates
  strings. The numeric case is an \<open>int\<close>: the numbers of the module start at 0 and grow by
  small integers.
\<close>

datatype proto_name =
    P_constructor | P_defineGetter | P_defineSetter | P_hasOwnProperty | P_lookupGetter
  | P_lookupSetter | P_isPrototypeOf | P_propertyIsEnumerable | P_toString | P_valueOf
  | P_proto | P_toLocaleString

definition proto_keys :: "(string \<times> proto_name) list" where
  "proto_keys =
     [(''constructor'', P_constructor), (''__defineGetter__'', P_defineGetter),
      (''__defineSetter__'', P_defineSetter), (''hasOwnProperty'', P_hasOwnProperty),
      (''__lookupGetter__'', P_lookupGetter), (''__lookupSetter__'', P_lookupSetter),
      (''isPrototypeOf'', P_isPrototypeOf), (''propertyIsEnumerable'', P_propertyIsEnumerable),
      (''toString'', P_toString), (''valueOf'', P_valueOf), (''__proto__'', P_proto),
      (''toLocaleString'', P_toLocaleString)]"

definition proto_of_key :: "string \<Rightarrow> proto_name option" where
  "proto_of_key k = map_of proto_keys k"

text \<open>
  The string a value of \<open>Object.prototype\<close> converts to: the source text of the built-in
  function (\<open>constructor\<close> is the function \<open>Object\<close>), and \<open>[object Object]\<close> for
  \<open>Object.prototype\<close> itself.
\<close>
fun function_name :: "proto_name \<Rightarrow> string" where
  "function_name P_constructor = ''Object''"
| "function_name P_defineGetter = ''__defineGetter__''"
| "function_name P_defineSetter = ''__defineSetter__''"
| "function_name P_hasOwnProperty = ''hasOwnProperty''"
| "function_name P_lookupGetter = ''__lookupGetter__''"
| "function_name P_lookupSetter = ''__lookupSetter__''"
| "function_name P_isPrototypeOf = ''isPrototypeOf''"
| "function_name P_propertyIsEnumerable = ''propertyIsEnumerable''"
| "function_name P_toString = ''toString''"
| "function_name P_valueOf = ''valueOf''"
| "function_name P_proto = ''__proto__''"
| "function_name P_toLocaleString = ''toLocaleString''"

definition proto_text :: "proto_name \<Rightarrow> string" where
  "proto_text p =
     (if p = P_proto then ''[object Object]''
      else ''function '' @ function_name p @ ''() { [native code] }'')"

text \<open>
  \<open>Proto p\<close> is the inherited value itself. \<open>Text pre p suf\<close> is the string
  \<open>pre @ proto_text p @ suf\<close>: every string the module can build comes from a
  concatenation with an inherited value, so it contains such a text and never reads as a
  number.
\<close>
datatype jsval = Undefined | NaN | Num int | Proto proto_name | Text string proto_name string

function show_digits :: "int \<Rightarrow> string" where
  "show_digits n =
     (if n < 10 then [char_of (48 + n)] else show_digits (n div 10) @ [char_of (48 + n mod 10)])"
  by pat_completeness auto
termination
  by (relation "measure nat") auto

text \<open>The decimal text of an integer.\<close>
definition show_int :: "int \<Rightarrow> string" where
  "show_int n = (if n < 0 then CHR ''-'' # show_digits (- n) else show_digits n)"

text \<open>\<open>String(v)\<close>\<close>
fun to_string :: "jsval \<Rightarrow> string" where
  "to_string Undefined = ''undefined''"
| "to_string NaN = ''NaN''"
| "to_string (Num n) = show_int n"
| "to_string (Proto p) = proto_text p"
| "to_string (Text pre p suf) = pre @ proto_text p @ suf"

text \<open>The values that convert to a string rather than to a number in \<open>+\<close> and \<open><\<close>.\<close>
fun is_string :: "jsval \<Rightarrow> bool" where
  "is_string (Proto p) = True"
| "is_string (Text pre p suf) = True"
| "is_string v = False"

text \<open>Truthiness, as \<open>!v\<close> and \<open>v || d\<close> test it.\<close>
fun truthy :: "jsval \<Rightarrow> bool" where
  "truthy Undefined = False"
| "truthy NaN = False"
| "truthy (Num n) = (n \<noteq> 0)"
| "truthy (Proto p) = True"
| "truthy (Text pre p suf) = True"

text \<open>
  \<open>a + b\<close>: numeric addition when both sides convert to numbers (\<open>undefined\<close> to
  \<open>NaN\<close>), string concatenation as soon as one side is a function, an object or a string.
\<close>
fun js_add :: "jsval \<Rightarrow> jsval \<Rightarrow> jsval" where
  "js_add (Text pre p suf) b = Text pre p (suf @ to_string b)"
| "js_add (Proto p) b = Text [] p (to_string b)"
| "js_add a (Text pre p suf) = Text (to_string a @ pre) p suf"
| "js_add a (Proto p) = Text (to_string a) p []"
| "js_add (Num a) (Num b) = Num (a + b)"
| "js_add a b = NaN"

text \<open>\<open>a - b\<close>: both sides convert to numbers, and none of the strings is numeric.\<close>
fun js_sub :: "jsval \<Rightarrow> jsval \<Rightarrow> jsval" where
  "js_sub (Num a) (Num b) = Num (a - b)"
| "js_sub a b = NaN"

text \<open>\<open>x += 1\<close>\<close>
definition js_inc :: "jsval \<Rightarrow> jsval" where
  "js_inc x = js_add x (Num 1)"

text \<open>Strings compare by their characters, left to right.\<close>
fun str_less :: "string \<Rightarrow> string \<Rightarrow> bool" where
  "str_less [] [] = False"
| "str_less [] (y # ys) = True"
| "str_less (x # xs) [] = False"
| "str_less (x # xs) (y # ys) =
     (if x = y then str_less xs ys else (of_char x :: int) < of_char y)"

text \<open>
  \<open>a < b\<close>: two strings compare as strings; otherwise both sides convert to numbers,
  \<open>undefined\<close> and every string of the module to \<open>NaN\<close>, and a comparison with \<open>NaN\<close> is
  false.
\<close>
fun js_lt :: "jsval \<Rightarrow> jsval \<Rightarrow> bool" where
  "js_lt (Num a) (Num b) = (a < b)"
| "js_lt a b = (if is_string a \<and> is_string b then str_less (to_string a) (to_string b) else False)"

text \<open>\<open>a > b\<close>\<close>
definition js_gt :: "jsval \<Rightarrow> jsval \<Rightarrow> bool" where
  "js_gt a b = js_lt b a"

text \<open>\<open>a >= b\<close>: false when a side is \<open>NaN\<close>, otherwise the negation of \<open>a < b\<close>.\<close>
fun js_ge :: "jsval \<Rightarrow> jsval \<Rightarrow> bool" where
  "js_ge (Num a) (Num b) = (a \<ge> b)"
| "js_ge a b = (if is_string a \<and> is_string b then \<not> str_less (to_string a) (to_string b) else False)"

subsection \<open>Plain objects as ordered property lists\<close>

text \<open>
  An object is the list of its own (key, value) pairs in insertion order; its prototype
  is \<open>Object.prototype\<close>. A read finds an own property first, then an inherited one.
  Assigning to an own key keeps its position and assigning to a new key appends it, also
  when the key shadows an inherited function. Only \<open>__proto__\<close> is an accessor: assigning
  to it calls the setter, which ignores every value that is not an object, and assigning
  \<open>Object.prototype\<close> leaves the prototype as it is. No route assigns a function there.
\<close>

type_synonym 'a object = "(string \<times> 'a) list"

fun obj_set :: "jsval object \<Rightarrow> string \<Rightarrow> jsval \<Rightarrow> jsval object" where
  "obj_set [] k v = (if k = ''__proto__'' then [] else [(k, v)])"
| "obj_set ((k', v') # kvs) k v =
     (if k' = k then (k, v) # kvs else (k', v') # obj_set kvs k v)"

text \<open>\<open>obj[k]\<close>\<close>
definition obj_get :: "jsval object \<Rightarrow> string \<Rightarrow> jsval" where
  "obj_get obj k =
     (case map_of obj k of
        Some v \<Rightarrow> v
      | None \<Rightarrow> (case proto_of_key k of None \<Rightarrow> Undefined | Some p \<Rightarrow> Proto p))"

text \<open>
  \<open>Object.entries\<close> lists the keys that are array indices (canonical decimal numerals
  below \<open>2^32 - 1\<close>) first, in ascending numeric order, and then all other keys in
  insertion order.
\<close>

definition is_digit :: "char \<Rightarrow> bool" where
  "is_digit c = (48 \<le> (of_char c :: int) \<and> (of_char c :: int) \<le> 57)"

definition index_value :: "string \<Rightarrow> int" where
  "index_value s = foldl (\<lambda>n c. 10 * n + ((of_char c :: int) - 48)) 0 s"

definition is_array_index :: "string \<Rightarrow> bool" where
  "is_array_index s =
     (s \<noteq> [] \<and> list_all is_digit s
      \<and> (if hd s = CHR ''0'' then length s = 1 else True)
      \<and> index_value s < 4294967295)"

definition object_entries :: "'a object \<Rightarrow> (string \<times> 'a) list" where
  "object_entries obj =
     sort_key (\<lambda>kv. index_value (fst kv)) (filter (\<lambda>kv. is_array_index (fst kv)) obj)
     @ filter (\<lambda>kv. \<not> is_array_index (fst kv)) obj"

section \<open>Data model: the four in-memory tables\<close>

text \<open>
  The module keeps four arrays: \<open>userStreaks\<close>, \<open>userBadges\<close>, \<open>rewardHistory\<close> and
  \<open>dailyHabits\<close>. A calendar day (\<open>moment().format('YYYY-MM-DD')\<close>) is its day number, so
  that yesterday is \<open>today - 1\<close>; the routes only compare days for equality. Fields
  filled from \<open>uuidv4()\<close> or from the wall clock (\<open>id\<close>, \<open>loggedAt\<close>, \<open>awardedAt\<close>,
  \<open>redeemedAt\<close>, \<open>lastUpdated\<close>) are written once and never read by any function of the
  module; the records leave them out.
\<close>

type_synonym day = int

record ActivityLog =
  log_userId :: string
  log_activityType :: string
  log_date :: day
  log_completed :: bool
  log_metrics :: "(string \<times> string) list"

record UserStreak =
  streak_userId :: string
  streaks :: "jsval object"
  longestStreaks :: "jsval object"

record UserBadge =
  badge_userId :: string
  badgeId :: string
  badgeName :: "string option"
  badgeDescription :: "string option"
  badge_points :: "int option"

text \<open>
  \<open>rewardHistory\<close> receives two shapes of object: the point awards pushed by
  \<open>awardPoints\<close> (with a \<open>points\<close> field) and the redemptions the redeem route would
  push (with \<open>pointsUsed\<close> and no \<open>points\<close> field).
\<close>

datatype RewardEntry =
    PointsAward (entry_userId: string) (award_activityType: string) (award_points: jsval)
  | Redemption (entry_userId: string) (rewardId: string) (rewardName: string)
      (pointsUsed: int) (status: string)

text \<open>\<open>reward.points\<close>: \<open>undefined\<close> on a redemption.\<close>
fun entry_points :: "RewardEntry \<Rightarrow> jsval" where
  "entry_points (PointsAward u t p) = p"
| "entry_points (Redemption u r n p st) = Undefined"

text \<open>\<open>reward.points || 0\<close>\<close>
definition points_or_0 :: "RewardEntry \<Rightarrow> jsval" where
  "points_or_0 reward = (if truthy (entry_points reward) then entry_points reward else Num 0)"

record engine =
  userStreaks :: "UserStreak list"
  userBadges :: "UserBadge list"
  rewardHistory :: "RewardEntry list"
  dailyHabits :: "ActivityLog list"

definition empty_engine :: engine where
  "empty_engine = \<lparr>userStreaks = [], userBadges = [], rewardHistory = [], dailyHabits = []\<rparr>"

subsection \<open>The badge catalog\<close>

record BadgeDef =
  def_name :: string
  def_description :: string
  def_points :: int

definition BADGES :: "(string \<times> (string \<times> BadgeDef) list) list" where
  "BADGES =
    [(''CONSISTENCY'',
       [(''7-day-streak'', \<lparr>def_name = ''7-Day Champion'',
           def_description = ''Maintained a 7-day streak'', def_points = 50\<rparr>),
        (''30-day-streak'', \<lparr>def_name = ''Monthly Warrior'',
           def_description = ''Maintained a 30-day streak'', def_points = 200\<rparr>),
        (''90-day-streak'', \<lparr>def_name = ''Quarterly Legend'',
           def_description = ''Maintained a 90-day streak'', def_points = 500\<rparr>)]),
     (''NUTRITION'',
       [(''healthy-eating'', \<lparr>def_name = ''Healthy Eater'',
           def_description = ''Logged healthy meals for 7 days'', def_points = 75\<rparr>),
        (''supplement-consistency'', \<lparr>def_name = ''Supplement Pro'',
           def_description = ''Taken supplements consistently for 14 days'', def_points = 100\<rparr>),
        (''hydration'', \<lparr>def_name = ''Hydration Hero'',
           def_description = ''Met water goals for 7 days'', def_points = 60\<rparr>)]),
     (''FITNESS'',
       [(''workout-consistency'', \<lparr>def_name = ''Fitness Fanatic'',
           def_description = ''Completed workouts for 7 days'', def_points = 80\<rparr>),
        (''step-master'', \<lparr>def_name = ''Step Master'',
           def_description = ''Achieved step goal for 7 days'', def_points = 70\<rparr>),
        (''active-lifestyle'', \<lparr>def_name = ''Active Lifestyle'',
           def_description = ''Maintained activity for 30 days'', def_points = 150\<rparr>)]),
     (''MILESTONES'',
       [(''first-week'', \<lparr>def_name = ''First Week'',
           def_description = ''Completed your first week'', def_points = 25\<rparr>),
        (''first-month'', \<lparr>def_name = ''First Month'',
           def_description = ''Completed your first month'', def_points = 100\<rparr>),
        (''weight-goal'', \<lparr>def_name = ''Weight Goal'',
           def_description = ''Reached your weight goal'', def_points = 200\<rparr>)])]"

section \<open>Utility functions of the module\<close>

text \<open>
  Every function takes the engine state and returns its result with the new state. An
  object found in an array is mutated in place by the source; here the first matching
  element of the list is replaced.
\<close>

fun modify_first :: "('a \<Rightarrow> bool) \<Rightarrow> ('a \<Rightarrow> 'a) \<Rightarrow> 'a list \<Rightarrow> 'a list" where
  "modify_first P f [] = []"
| "modify_first P f (x # xs) = (if P x then f x # xs else x # modify_first P f xs)"

definition newStreak :: "string \<Rightarrow> UserStreak" where
  "newStreak userId =
     \<lparr>streak_userId = userId,
      streaks = [(''nutrition'', Num 0), (''fitness'', Num 0), (''supplements'', Num 0),
                 (''hydration'', Num 0), (''sleep'', Num 0)],
      longestStreaks = [(''nutrition'', Num 0), (''fitness'', Num 0), (''supplements'', Num 0),
                 (''hydration'', Num 0), (''sleep'', Num 0)]\<rparr>"

definition initializeUserStreak :: "string \<Rightarrow> engine \<Rightarrow> UserStreak \<times> engine" where
  "initializeUserStreak userId s =
     (newStreak userId, s\<lparr>userStreaks := userStreaks s @ [newStreak userId]\<rparr>)"

record StreakUpdate =
  su_activityType :: string
  currentStreak :: jsval
  longestStreak :: jsval

text \<open>The body of \<open>updateStreak\<close> after the record and yesterday's log are known.\<close>
definition bump_streak :: "string \<Rightarrow> bool \<Rightarrow> ActivityLog option \<Rightarrow> UserStreak \<Rightarrow> UserStreak" where
  "bump_streak activityType completed yesterdayActivity userStreak =
     (if completed then
        (let us1 =
           (if (case yesterdayActivity of None \<Rightarrow> False | Some l \<Rightarrow> log_completed l)
            then userStreak\<lparr>streaks := obj_set (streaks userStreak) activityType
                              (js_inc (obj_get (streaks userStreak) activityType))\<rparr>
            else userStreak\<lparr>streaks := obj_set (streaks userStreak) activityType (Num 1)\<rparr>)
         in if js_gt (obj_get (streaks us1) activityType) (obj_get (longestStreaks us1) activityType)
            then us1\<lparr>longestStreaks := obj_set (longestStreaks us1) activityType
                              (obj_get (streaks us1) activityType)\<rparr>
            else us1)
      else userStreak\<lparr>streaks := obj_set (streaks userStreak) activityType (Num 0)\<rparr>)"

definition updateStreak :: "day \<Rightarrow> string \<Rightarrow> string \<Rightarrow> bool \<Rightarrow> engine \<Rightarrow> StreakUpdate \<times> engine" where
  "updateStreak today userId activityType completed s =
     (let (userStreak, s1) =
            (case find (\<lambda>streak. streak_userId streak = userId) (userStreaks s) of
               None \<Rightarrow> initializeUserStreak userId s
             | Some streak \<Rightarrow> (streak, s));
          yesterday = today - 1;
          yesterdayActivity =
            find (\<lambda>log. log_userId log = userId \<and> log_activityType log = activityType
                        \<and> log_date log = yesterday) (dailyHabits s1);
          userStreak' = bump_streak activityType completed yesterdayActivity userStreak;
          s2 = s1\<lparr>userStreaks :=
                 modify_first (\<lambda>streak. streak_userId streak = userId) (\<lambda>_. userStreak')
                   (userStreaks s1)\<rparr>
      in (\<lparr>su_activityType = activityType,
           currentStreak = obj_get (streaks userStreak') activityType,
           longestStreak = obj_get (longestStreaks userStreak') activityType\<rparr>, s2))"

subsection \<open>Badges\<close>

text \<open>
  \<open>awardBadge\<close> looks the badge up with
  \<open>Object.values(BADGES).flatMap(category => Object.entries(category).find(([id, _]) => id === badgeId)).find(b => b)?.[1]\<close>.
  For a category that holds the badge, \<open>find\<close> returns the pair \<open>[id, definition]\<close>, and
  \<open>flatMap\<close> flattens that pair into two elements of the result; for the other categories
  it contributes one \<open>undefined\<close>.
\<close>

datatype catalog_item = ItemUndefined | ItemId string | ItemDef BadgeDef

definition flat_lookup :: "string \<Rightarrow> catalog_item list" where
  "flat_lookup bid =
     concat (map (\<lambda>category.
                    case find (\<lambda>entry. fst entry = bid) (object_entries category) of
                      None \<Rightarrow> [ItemUndefined]
                    | Some (k, d) \<Rightarrow> [ItemId k, ItemDef d])
                 (map snd (object_entries BADGES)))"

text \<open>\<open>b => b\<close>: the empty string and \<open>undefined\<close> are falsy, an object is truthy.\<close>
fun truthy_item :: "catalog_item \<Rightarrow> bool" where
  "truthy_item ItemUndefined = False"
| "truthy_item (ItemId k) = (k \<noteq> [])"
| "truthy_item (ItemDef d) = True"

text \<open>
  \<open>x[1]\<close>: the second character of a string, as a one-character string; \<open>undefined\<close>
  on a shorter string and on a badge definition, which has no property \<open>1\<close>.
\<close>
fun item_at_1 :: "catalog_item \<Rightarrow> string option" where
  "item_at_1 (ItemId k) = (if 1 < length k then Some [k ! 1] else None)"
| "item_at_1 (ItemDef d) = None"
| "item_at_1 ItemUndefined = None"

text \<open>The value of the constant \<open>badge\<close>: \<open>undefined\<close> or a one-character string.\<close>
definition find_badge :: "string \<Rightarrow> string option" where
  "find_badge bid =
     (case find truthy_item (flat_lookup bid) of None \<Rightarrow> None | Some x \<Rightarrow> item_at_1 x)"

text \<open>
  \<open>badge.name\<close>, \<open>badge.description\<close> and \<open>badge.points\<close> are read off that string and are
  \<open>undefined\<close>. The function returns \<open>null\<close> (here \<open>None\<close>) when \<open>badge\<close> is falsy.
\<close>
definition awardBadge :: "string \<Rightarrow> string \<Rightarrow> engine \<Rightarrow> UserBadge option \<times> engine" where
  "awardBadge userId bid s =
     (case find_badge bid of
        None \<Rightarrow> (None, s)
      | Some badge \<Rightarrow>
          if badge = [] then (None, s)
          else (let userBadge = \<lparr>badge_userId = userId, badgeId = bid, badgeName = None,
                                  badgeDescription = None, badge_points = None\<rparr>
                in (Some userBadge, s\<lparr>userBadges := userBadges s @ [userBadge]\<rparr>)))"

text \<open>
  One round of the \<open>forEach\<close> over the streak entries. \<open>earnedBadges\<close> is the array
  filtered before the loop; the awards made inside the loop do not reach it.
\<close>
definition streak_badge_step ::
  "string \<Rightarrow> UserBadge list \<Rightarrow> UserBadge option list \<times> engine \<Rightarrow> string \<times> jsval
     \<Rightarrow> UserBadge option list \<times> engine" where
  "streak_badge_step userId earnedBadges acc entry =
     (let (newBadges, s) = acc;
          streak = snd entry;
          (newBadges1, s1) =
            (if js_ge streak (Num 7) \<and> find (\<lambda>b. badgeId b = ''7-day-streak'') earnedBadges = None
             then (let (b, s') = awardBadge userId ''7-day-streak'' s in (newBadges @ [b], s'))
             else (newBadges, s))
      in if js_ge streak (Num 30) \<and> find (\<lambda>b. badgeId b = ''30-day-streak'') earnedBadges = None
         then (let (b, s') = awardBadge userId ''30-day-streak'' s1 in (newBadges1 @ [b], s'))
         else (newBadges1, s1))"

text \<open>
  \<open>checkForNewBadges\<close> reads \<open>userStreak.streaks\<close> without testing that the record was
  found: without a record the property access throws a TypeError, here \<open>None\<close>.
\<close>
definition checkForNewBadges :: "string \<Rightarrow> engine \<Rightarrow> (UserBadge option list \<times> engine) option" where
  "checkForNewBadges userId s =
     (case find (\<lambda>streak. streak_userId streak = userId) (userStreaks s) of
        None \<Rightarrow> None
      | Some userStreak \<Rightarrow>
          (let earnedBadges = filter (\<lambda>badge. badge_userId badge = userId) (userBadges s);
               (newBadges, s1) =
                 foldl (streak_badge_step userId earnedBadges) ([], s)
                   (object_entries (streaks userStreak));
               nutritionActivities =
                 filter (\<lambda>log. log_userId log = userId
                          \<and> log_activityType log \<in> set [''healthy-eating'', ''supplement-consistency''])
                   (dailyHabits s1)
           in if length nutritionActivities \<ge> 7
              then (let (b, s') = awardBadge userId ''healthy-eating'' s1
                    in Some (newBadges @ [b], s'))
              else Some (newBadges, s1)))"

subsection \<open>Points\<close>

definition activity_points :: "jsval object" where
  "activity_points =
     [(''healthy-eating'', Num 10), (''supplement-consistency'', Num 15), (''workout'', Num 20),
      (''hydration'', Num 5), (''sleep'', Num 8), (''meditation'', Num 12)]"

text \<open>
  \<open>points[activityType] || 5\<close>: the table is a plain object, so an activity type that
  names an inherited property reads as that function or object, which is truthy.
\<close>
definition points_for :: "string \<Rightarrow> jsval" where
  "points_for activityType =
     (if truthy (obj_get activity_points activityType)
      then obj_get activity_points activityType else Num 5)"

text \<open>
  \<open>completed\<close> is the raw request field: \<open>None\<close> when the request omits it. \<open>!completed\<close>
  holds for \<open>false\<close> and for \<open>undefined\<close>.
\<close>
definition awardPoints :: "string \<Rightarrow> string \<Rightarrow> bool option \<Rightarrow> engine \<Rightarrow> jsval \<times> engine" where
  "awardPoints userId activityType completed s =
     (if completed = None \<or> completed = Some False then (Num 0, s)
      else (let pointsEarned = points_for activityType
            in (pointsEarned,
                s\<lparr>rewardHistory := rewardHistory s
                     @ [PointsAward userId activityType pointsEarned]\<rparr>)))"

definition calculateTotalPoints :: "engine \<Rightarrow> string \<Rightarrow> jsval" where
  "calculateTotalPoints s userId =
     foldl (\<lambda>total reward. js_add total (points_or_0 reward)) (Num 0)
       (filter (\<lambda>reward. entry_userId reward = userId) (rewardHistory s))"

section \<open>The route \<open>POST /log-activity\<close>\<close>

text \<open>
  The request body: a missing field is \<open>None\<close>. \<open>userId\<close> and \<open>activityType\<close> are strings
  and \<open>completed\<close> is a boolean when present. The route answers 400 with
  \<open>Missing required fields\<close> (\<open>ValidationError\<close>), 400 with
  \<open>Activity already logged for today\<close> (\<open>DuplicateLogError\<close>), or 500 from its
  \<open>catch\<close> (\<open>InternalError\<close>); the redeem route answers 404 (\<open>NotFoundError\<close>) or 400
  with the required and the current points (\<open>InsufficientPointsError\<close>).
\<close>

datatype error =
    ValidationError
  | DuplicateLogError
  | NotFoundError
  | InsufficientPointsError (required: int) (current: jsval)
  | InternalError

record request =
  req_userId :: "string option"
  req_activityType :: "string option"
  req_completed :: "bool option"
  req_metrics :: "(string \<times> string) list option"

record logged =
  res_log :: ActivityLog
  res_streakUpdate :: StreakUpdate
  res_newBadges :: "UserBadge option list"
  res_pointsAwarded :: jsval

text \<open>\<open>!x\<close> for a string field: missing or empty.\<close>
definition falsy_str :: "string option \<Rightarrow> bool" where
  "falsy_str x = (x = None \<or> x = Some [])"

definition logActivity :: "day \<Rightarrow> request \<Rightarrow> engine \<Rightarrow> (error + logged) \<times> engine" where
  "logActivity today req s =
     (if falsy_str (req_userId req) \<or> falsy_str (req_activityType req)
      then (Inl ValidationError, s)
      else
        (let userId = the (req_userId req);
             activityType = the (req_activityType req);
             completed = req_completed req;
             existingLog =
               find (\<lambda>log. log_userId log = userId \<and> log_activityType log = activityType
                           \<and> log_date log = today) (dailyHabits s)
         in if existingLog \<noteq> None then (Inl DuplicateLogError, s)
            else
              (let activityLog =
                     \<lparr>log_userId = userId, log_activityType = activityType, log_date = today,
                      log_completed = (completed \<noteq> Some False),
                      log_metrics = (case req_metrics req of None \<Rightarrow> [] | Some m \<Rightarrow> m)\<rparr>;
                   s1 = s\<lparr>dailyHabits := dailyHabits s @ [activityLog]\<rparr>;
                   (streakUpdate, s2) =
                     updateStreak today userId activityType (completed \<noteq> Some False) s1
               in case checkForNewBadges userId s2 of
                    None \<Rightarrow> (Inl InternalError, s2)
                  | Some (newBadges, s3) \<Rightarrow>
                      (let (pointsAwarded, s4) = awardPoints userId activityType completed s3
                       in (Inr \<lparr>res_log = activityLog, res_streakUpdate = streakUpdate,
                                 res_newBadges = newBadges,
                                 res_pointsAwarded = pointsAwarded\<rparr>, s4)))))"

text \<open>A sequence of requests, each on its own day, run one after the other.\<close>
fun run :: "(day \<times> request) list \<Rightarrow> engine \<Rightarrow> (error + logged) list \<times> engine" where
  "run [] s = ([], s)"
| "run ((d, req) # rest) s =
     (let (r, s1) = logActivity d req s; (rs, s2) = run rest s1 in (r # rs, s2))"

text \<open>A request with all of \<open>userId\<close>, \<open>activityType\<close> and \<open>completed\<close> present.\<close>
definition activity_request :: "string \<Rightarrow> string \<Rightarrow> bool \<Rightarrow> request" where
  "activity_request userId activityType completed =
     \<lparr>req_userId = Some userId, req_activityType = Some activityType,
      req_completed = Some completed, req_metrics = None\<rparr>"

text \<open>
  The record of a user as the route \<open>GET /:userId/streaks\<close> reads it:
  \<open>userStreaks.find(...) || initializeUserStreak(userId)\<close>.
\<close>
definition lookupStreak :: "engine \<Rightarrow> string \<Rightarrow> UserStreak" where
  "lookupStreak s userId =
     (case find (\<lambda>streak. streak_userId streak = userId) (userStreaks s) of
        None \<Rightarrow> newStreak userId
      | Some streak \<Rightarrow> streak)"

section \<open>The route \<open>POST /:userId/redeem\<close>\<close>

text \<open>
  The route calls \<open>getRewardById(rewardId)\<close>. The module neither defines nor imports that
  name, so evaluating the call throws a ReferenceError, and the \<open>catch\<close> of the route
  answers 500 (\<open>InternalError\<close>). The binding of the name is the first argument of
  \<open>redeem\<close>: \<open>None\<close> for the module as it is, \<open>Some f\<close> if the name were bound to \<open>f\<close>
  (\<open>f\<close> returning \<open>None\<close> for a falsy result). Of a reward the route reads \<open>name\<close> and
  \<open>pointsRequired\<close>. The total is computed before the call.
\<close>

record Reward =
  reward_name :: string
  pointsRequired :: int

record redeemed =
  redemption :: RewardEntry
  remainingPoints :: jsval

definition redeem ::
  "(string \<Rightarrow> Reward option) option \<Rightarrow> string \<Rightarrow> string \<Rightarrow> engine
     \<Rightarrow> (error + redeemed) \<times> engine" where
  "redeem binding userId rid s =
     (let userPoints = calculateTotalPoints s userId
      in case binding of
           None \<Rightarrow> (Inl InternalError, s)
         | Some getRewardById \<Rightarrow>
             (case getRewardById rid of
                None \<Rightarrow> (Inl NotFoundError, s)
              | Some reward \<Rightarrow>
                  if js_lt userPoints (Num (pointsRequired reward))
                  then (Inl (InsufficientPointsError (pointsRequired reward) userPoints), s)
                  else (let r = Redemption userId rid (reward_name reward)
                                  (pointsRequired reward) ''claimed''
                        in (Inr \<lparr>redemption = r,
                                  remainingPoints =
                                    js_sub userPoints (Num (pointsRequired reward))\<rparr>,
                            s\<lparr>rewardHistory := rewardHistory s @ [r]\<rparr>))))"

text \<open>The route of the module: \<open>getRewardById\<close> is not bound.\<close>
definition redeem_route :: "string \<Rightarrow> string \<Rightarrow> engine \<Rightarrow> (error + redeemed) \<times> engine" where
  "redeem_route userId rid s = redeem None userId rid s"

section \<open>The leaderboard\<close>

text \<open>
  \<open>userPoints\<close> is a plain object keyed by user id. The guard
  \<open>if (!userPoints[id]) userPoints[id] = 0\<close> fires for a missing key and for a total of 0,
  but not for a user id that names an inherited property: there the read is truthy and the
  \<open>+=\<close> concatenates the points to the text of the function.
\<close>
definition add_reward :: "jsval object \<Rightarrow> RewardEntry \<Rightarrow> jsval object" where
  "add_reward userPoints reward =
     (let uid = entry_userId reward;
          up1 = (if truthy (obj_get userPoints uid) then userPoints
                 else obj_set userPoints uid (Num 0))
      in obj_set up1 uid (js_add (obj_get up1 uid) (points_or_0 reward)))"

text \<open>\<open>xs.slice(0, limit)\<close>: a negative end counts from the end of the array.\<close>
definition js_slice0 :: "'a list \<Rightarrow> int \<Rightarrow> 'a list" where
  "js_slice0 xs limit =
     (if limit < 0 then take (nat (int (length xs) + limit)) xs else take (nat limit) xs)"

fun is_num :: "jsval \<Rightarrow> bool" where
  "is_num (Num n) = True"
| "is_num v = False"

fun num_value :: "jsval \<Rightarrow> int" where
  "num_value (Num n) = n"
| "num_value v = 0"

text \<open>
  \<open>entries.sort(([,a], [,b]) => b - a)\<close>. \<open>Array.prototype.sort\<close> is stable; when every
  total is a number the comparator orders by descending total, which is the stable
  insertion sort by the negated total. When some total is a string, \<open>b - a\<close> is \<open>NaN\<close> for
  it and the sort takes that as 0: if the numbers among the totals are all equal, every
  comparison is 0 and the order stays; if they are not, the comparator is not consistent
  and ECMAScript leaves the order to the implementation, here \<open>None\<close>.
\<close>
definition sort_by_points :: "(string \<times> jsval) list \<Rightarrow> (string \<times> jsval) list option" where
  "sort_by_points entries =
     (if list_all (\<lambda>entry. is_num (snd entry)) entries
      then Some (sort_key (\<lambda>entry. - num_value (snd entry)) entries)
      else (case filter (\<lambda>entry. is_num (snd entry)) entries of
              [] \<Rightarrow> Some entries
            | first # others \<Rightarrow>
                if list_all (\<lambda>entry. snd entry = snd first) others then Some entries
                else None))"

record LeaderboardRow =
  row_rank :: int
  row_userId :: string
  row_points :: jsval
  row_badges :: nat

definition generateLeaderboard ::
  "string \<Rightarrow> int \<Rightarrow> engine \<Rightarrow> LeaderboardRow list option" where
  "generateLeaderboard rankBy limit s =
     (let userPoints = foldl add_reward [] (rewardHistory s)
      in case sort_by_points (object_entries userPoints) of
           None \<Rightarrow> None
         | Some ranked \<Rightarrow>
             (let top = js_slice0 ranked limit
              in Some (map (\<lambda>(index, userId, points).
                         \<lparr>row_rank = int index + 1, row_userId = userId, row_points = points,
                          row_badges = length (filter (\<lambda>badge. badge_userId badge = userId)
                                                 (userBadges s))\<rparr>)
                       (enumerate 0 top))))"

section \<open>Auxiliary notions for the statements\<close>

text \<open>Yesterday's log of the same user and type, as \<open>updateStreak\<close> looks it up.\<close>
definition yesterdayActivity :: "day \<Rightarrow> string \<Rightarrow> string \<Rightarrow> engine \<Rightarrow> ActivityLog option" where
  "yesterdayActivity today userId activityType s =
     find (\<lambda>log. log_userId log = userId \<and> log_activityType log = activityType
                 \<and> log_date log = today - 1) (dailyHabits s)"

text \<open>
  The two guards of the log route pass: both identifiers are present and non-empty, and
  no log exists yet for the key (user, type, day).
\<close>
definition accepted :: "day \<Rightarrow> request \<Rightarrow> engine \<Rightarrow> bool" where
  "accepted today req s =
     (\<not> falsy_str (req_userId req) \<and> \<not> falsy_str (req_activityType req)
      \<and> find (\<lambda>log. log_userId log = the (req_userId req)
                    \<and> log_activityType log = the (req_activityType req)
                    \<and> log_date log = today) (dailyHabits s) = None)"

text \<open>The log object the route builds, and the state after pushing it.\<close>
definition new_log :: "day \<Rightarrow> request \<Rightarrow> ActivityLog" where
  "new_log today req =
     \<lparr>log_userId = the (req_userId req), log_activityType = the (req_activityType req),
      log_date = today, log_completed = (req_completed req \<noteq> Some False),
      log_metrics = (case req_metrics req of None \<Rightarrow> [] | Some m \<Rightarrow> m)\<rparr>"

definition with_log :: "day \<Rightarrow> request \<Rightarrow> engine \<Rightarrow> engine" where
  "with_log today req s = s\<lparr>dailyHabits := dailyHabits s @ [new_log today req]\<rparr>"

text \<open>
  The number of points a response reports for a user (\<open>pointsAwarded\<close>; 0 for a rejected
  request and for a value that is not a number), and the sum over a sequence of responses.
\<close>
definition activity_points_of :: "string \<Rightarrow> error + logged \<Rightarrow> int" where
  "activity_points_of userId r =
     (case r of Inl e \<Rightarrow> 0
      | Inr ok \<Rightarrow>
          if log_userId (res_log ok) = userId then num_value (res_pointsAwarded ok) else 0)"

text \<open>
  A request whose activity type, if present, is not the name of a property inherited from
  \<open>Object.prototype\<close>.
\<close>
definition plain_type :: "request \<Rightarrow> bool" where
  "plain_type req =
     (case req_activityType req of None \<Rightarrow> True | Some t \<Rightarrow> proto_of_key t = None)"

definition activity_points_awarded :: "string \<Rightarrow> (error + logged) list \<Rightarrow> int" where
  "activity_points_awarded userId rs = sum_list (map (activity_points_of userId) rs)"

text \<open>
  The total the specification describes: the activity points plus, for every badge a
  response reports as new, the point value the catalog gives that badge.
\<close>
definition catalog_points :: "string \<Rightarrow> int" where
  "catalog_points bid =
     (case find (\<lambda>entry. fst entry = bid) (concat (map snd BADGES)) of
        None \<Rightarrow> 0 | Some entry \<Rightarrow> def_points (snd entry))"

definition badge_points_of :: "string \<Rightarrow> error + logged \<Rightarrow> int" where
  "badge_points_of userId r =
     (case r of Inl e \<Rightarrow> 0
      | Inr ok \<Rightarrow>
          if log_userId (res_log ok) = userId
          then sum_list (map (\<lambda>b. case b of None \<Rightarrow> 0 | Some ub \<Rightarrow> catalog_points (badgeId ub))
                          (res_newBadges ok))
          else 0)"

definition spec_awarded_points :: "string \<Rightarrow> (error + logged) list \<Rightarrow> int" where
  "spec_awarded_points userId rs =
     activity_points_awarded userId rs + sum_list (map (badge_points_of userId) rs)"

text \<open>Seven consecutive days of one user completing \<open>fitness\<close>.\<close>
definition fitness_week :: "(day \<times> request) list" where
  "fitness_week = map (\<lambda>d. (d, activity_request ''alice'' ''fitness'' True)) [1, 2, 3, 4, 5, 6, 7]"

text \<open>
  A ledger whose user ids are not names of inherited properties and whose entries carry
  numbers (or no points, as a redemption).
\<close>
definition plain_ledger :: "RewardEntry list \<Rightarrow> bool" where
  "plain_ledger rh =
     list_all (\<lambda>reward. proto_of_key (entry_userId reward) = None
                 \<and> is_num (points_or_0 reward)) rh"

text \<open>Concrete states and request sequences for the instances below.\<close>
definition three_users_engine :: engine where
  "three_users_engine =
     empty_engine\<lparr>rewardHistory :=
       [PointsAward ''alice'' ''workout'' (Num 20), PointsAward ''bob'' ''workout'' (Num 20),
        PointsAward ''carol'' ''workout'' (Num 20), PointsAward ''alice'' ''workout'' (Num 20),
        PointsAward ''carol'' ''supplement-consistency'' (Num 15),
        PointsAward ''alice'' ''workout'' (Num 20),
        PointsAward ''bob'' ''healthy-eating'' (Num 10), PointsAward ''carol'' ''workout'' (Num 20),
        PointsAward ''alice'' ''workout'' (Num 20), PointsAward ''bob'' ''workout'' (Num 20),
        PointsAward ''carol'' ''workout'' (Num 20), PointsAward ''alice'' ''workout'' (Num 20)]\<rparr>"

definition workout_days :: "(day \<times> request) list" where
  "workout_days = map (\<lambda>d. (d, activity_request ''alice'' ''workout'' True)) [1, 2, 3, 4, 5]"

definition fitness_days :: "(day \<times> request) list" where
  "fitness_days = map (\<lambda>d. (d, activity_request ''alice'' ''fitness'' True)) [1, 2, 3, 4, 5]"

definition healthy_eating_days :: "(day \<times> request) list" where
  "healthy_eating_days =
     map (\<lambda>d. (d, activity_request ''alice'' ''healthy-eating'' True)) [1, 2, 3, 4, 5, 6, 7, 8]"

definition request_without_completed :: request where
  "request_without_completed =
     \<lparr>req_userId = Some ''alice'', req_activityType = Some ''workout'',
      req_completed = None, req_metrics = None\<rparr>"

text \<open>The state after one user has logged one completed \<open>workout\<close>.\<close>
definition after_workout :: "string \<Rightarrow> engine" where
  "after_workout userId =
     snd (logActivity 1 (activity_request userId ''workout'' True) empty_engine)"

text \<open>
  The users that occur in the ledger; the numeric sum of a user's ledger entries; the
  number a key holds in \<open>userPoints\<close>; the (user, total) pairs after grouping and sorting by
  descending number; and the rows built from the first \<open>limit\<close> of them.
\<close>
definition user_ids :: "engine \<Rightarrow> string set" where
  "user_ids s = entry_userId ` set (rewardHistory s)"

definition ranked_totals :: "engine \<Rightarrow> (string \<times> jsval) list" where
  "ranked_totals s =
     sort_key (\<lambda>entry. - num_value (snd entry))
       (object_entries (foldl add_reward [] (rewardHistory s)))"

definition own_value :: "jsval object \<Rightarrow> string \<Rightarrow> int" where
  "own_value up u = (case map_of up u of None \<Rightarrow> 0 | Some v \<Rightarrow> num_value v)"

definition ledger_sum :: "RewardEntry list \<Rightarrow> string \<Rightarrow> int" where
  "ledger_sum rh u =
     sum_list (map (\<lambda>reward. num_value (points_or_0 reward))
                 (filter (\<lambda>reward. entry_userId reward = u) rh))"

definition leaderboard_rows :: "string \<Rightarrow> int \<Rightarrow> engine \<Rightarrow> LeaderboardRow list" where
  "leaderboard_rows rankBy limit s =
     map (\<lambda>(index, userId, points).
            \<lparr>row_rank = int index + 1, row_userId = userId, row_points = points,
             row_badges = length (filter (\<lambda>badge. badge_userId badge = userId)
                                    (userBadges s))\<rparr>)
         (enumerate 0 (take (nat limit) (ranked_totals s)))"

section \<open>Frame and structure lemmas\<close>

lemma awardBadge_frame:
  "userStreaks (snd (awardBadge u b s)) = userStreaks s"
  "rewardHistory (snd (awardBadge u b s)) = rewardHistory s"
  "dailyHabits (snd (awardBadge u b s)) = dailyHabits s"
  by (simp_all add: awardBadge_def Let_def split: option.splits)

lemma streak_badge_step_frame:
  "userStreaks (snd (streak_badge_step u eb acc e)) = userStreaks (snd acc)"
  "rewardHistory (snd (streak_badge_step u eb acc e)) = rewardHistory (snd acc)"
  "dailyHabits (snd (streak_badge_step u eb acc e)) = dailyHabits (snd acc)"
  by (simp_all add: streak_badge_step_def Let_def split_beta awardBadge_frame)

lemma foldl_badge_step_frame:
  "userStreaks (snd (foldl (streak_badge_step u eb) acc es)) = userStreaks (snd acc)"
  "rewardHistory (snd (foldl (streak_badge_step u eb) acc es)) = rewardHistory (snd acc)"
  "dailyHabits (snd (foldl (streak_badge_step u eb) acc es)) = dailyHabits (snd acc)"
  by (induction es arbitrary: acc) (simp_all add: streak_badge_step_frame)

lemma checkForNewBadges_frame:
  assumes "checkForNewBadges u s = Some r"
  shows "userStreaks (snd r) = userStreaks s" "rewardHistory (snd r) = rewardHistory s"
    "dailyHabits (snd r) = dailyHabits s"
  using assms
  by (auto simp: checkForNewBadges_def Let_def split_beta foldl_badge_step_frame awardBadge_frame
      split: option.splits if_splits)

lemma checkForNewBadges_defined:
  "(checkForNewBadges u s = None) = (find (\<lambda>streak. streak_userId streak = u) (userStreaks s) = None)"
  by (auto simp: checkForNewBadges_def Let_def split_beta split: option.splits)

lemma awardPoints_frame:
  "userStreaks (snd (awardPoints u t c s)) = userStreaks s"
  "userBadges (snd (awardPoints u t c s)) = userBadges s"
  "dailyHabits (snd (awardPoints u t c s)) = dailyHabits s"
  by (simp_all add: awardPoints_def Let_def)

lemma find_append:
  "find P (xs @ ys) = (case find P xs of None \<Rightarrow> find P ys | Some x \<Rightarrow> Some x)"
  by (induction xs) auto

lemma updateStreak_frame:
  "userBadges (snd (updateStreak d u t c s)) = userBadges s"
  "rewardHistory (snd (updateStreak d u t c s)) = rewardHistory s"
  "dailyHabits (snd (updateStreak d u t c s)) = dailyHabits s"
  by (simp_all add: updateStreak_def initializeUserStreak_def Let_def split: option.splits)

lemma bump_streak_userId: "streak_userId (bump_streak t c y us) = streak_userId us"
  by (simp add: bump_streak_def Let_def)

lemma find_Some_P: "find P xs = Some x \<Longrightarrow> P x"
  by (induction xs) (auto split: if_splits)

lemma modify_first_append_new:
  "find P xs = None \<Longrightarrow> P x \<Longrightarrow> modify_first P f (xs @ [x]) = xs @ [f x]"
  by (induction xs) (auto split: if_splits)

lemma updateStreak_userStreaks:
  "userStreaks (snd (updateStreak d u t c s)) =
     (case find (\<lambda>streak. streak_userId streak = u) (userStreaks s) of
        None \<Rightarrow> userStreaks s @ [bump_streak t c (yesterdayActivity d u t s) (newStreak u)]
      | Some us \<Rightarrow> modify_first (\<lambda>streak. streak_userId streak = u)
                     (\<lambda>_. bump_streak t c (yesterdayActivity d u t s) us) (userStreaks s))"
  by (simp add: updateStreak_def initializeUserStreak_def Let_def yesterdayActivity_def
      modify_first_append_new newStreak_def split: option.splits)

lemma find_modify_first_const:
  "find P xs = Some x \<Longrightarrow> P y \<Longrightarrow> find P (modify_first P (\<lambda>_. y) xs) = Some y"
  by (induction xs) (auto split: if_splits)

lemma lookupStreak_updateStreak:
  "lookupStreak (snd (updateStreak d u t c s)) u =
     bump_streak t c (yesterdayActivity d u t s) (lookupStreak s u)"
proof (cases "find (\<lambda>streak. streak_userId streak = u) (userStreaks s)")
  case None
  then show ?thesis
    by (simp add: lookupStreak_def updateStreak_userStreaks find_append bump_streak_userId
        newStreak_def)
next
  case (Some us)
  then have "streak_userId us = u" by (auto dest: find_Some_P)
  then have "streak_userId (bump_streak t c (yesterdayActivity d u t s) us) = u"
    by (simp add: bump_streak_userId)
  with Some show ?thesis
    by (simp add: lookupStreak_def updateStreak_userStreaks find_modify_first_const)
qed

lemma filter_modify_first_other:
  "(\<And>x. P x \<Longrightarrow> \<not> Q x) \<Longrightarrow> (\<And>x. P x \<Longrightarrow> \<not> Q (f x)) \<Longrightarrow> filter Q (modify_first P f xs) = filter Q xs"
  by (induction xs) auto

lemma updateStreak_other_users:
  assumes "u' \<noteq> u"
  shows "filter (\<lambda>streak. streak_userId streak = u') (userStreaks (snd (updateStreak d u t c s)))
       = filter (\<lambda>streak. streak_userId streak = u') (userStreaks s)"
proof (cases "find (\<lambda>streak. streak_userId streak = u) (userStreaks s)")
  case None
  with assms show ?thesis
    by (simp add: updateStreak_userStreaks bump_streak_userId newStreak_def)
next
  case (Some us)
  then have "streak_userId us = u" by (auto dest: find_Some_P)
  have "filter (\<lambda>streak. streak_userId streak = u')
          (modify_first (\<lambda>streak. streak_userId streak = u)
             (\<lambda>_. bump_streak t c (yesterdayActivity d u t s) us) (userStreaks s))
        = filter (\<lambda>streak. streak_userId streak = u') (userStreaks s)"
    using assms \<open>streak_userId us = u\<close>
    by (intro filter_modify_first_other) (auto simp: bump_streak_userId)
  with Some show ?thesis
    by (simp add: updateStreak_userStreaks)
qed

lemma updateStreak_found:
  "find (\<lambda>streak. streak_userId streak = u) (userStreaks (snd (updateStreak d u t c s))) \<noteq> None"
proof (cases "find (\<lambda>streak. streak_userId streak = u) (userStreaks s)")
  case None
  then show ?thesis
    by (simp add: updateStreak_userStreaks find_append bump_streak_userId newStreak_def)
next
  case (Some us)
  then have "streak_userId us = u" by (auto dest: find_Some_P)
  with Some show ?thesis
    by (simp add: updateStreak_userStreaks find_modify_first_const bump_streak_userId)
qed


lemma map_of_obj_set:
  "map_of (obj_set kvs k v) k' =
     (if k' = k then (if map_of kvs k = None \<and> k = ''__proto__'' then None else Some v)
      else map_of kvs k')"
  by (induction kvs) auto

lemma obj_get_obj_set_other: "k' \<noteq> k \<Longrightarrow> obj_get (obj_set kvs k v) k' = obj_get kvs k'"
  by (simp add: obj_get_def map_of_obj_set)

lemma obj_get_obj_set_own:
  "map_of kvs k \<noteq> None \<or> k \<noteq> ''__proto__'' \<Longrightarrow> obj_get (obj_set kvs k v) k = v"
  by (auto simp: obj_get_def map_of_obj_set)

lemma obj_get_Num: "obj_get kvs k = Num n \<Longrightarrow> map_of kvs k = Some (Num n)"
  by (auto simp: obj_get_def split: option.splits)

lemma bump_streak_other:
  assumes "t' \<noteq> t"
  shows "obj_get (streaks (bump_streak t c y us)) t' = obj_get (streaks us) t'"
    and "obj_get (longestStreaks (bump_streak t c y us)) t' = obj_get (longestStreaks us) t'"
  using assms by (simp_all add: bump_streak_def Let_def obj_get_obj_set_other)

lemma logActivity_rejected: "\<not> accepted d req s \<Longrightarrow> snd (logActivity d req s) = s"
  by (auto simp: logActivity_def accepted_def Let_def)

lemma logActivity_rejected_error:
  "\<not> accepted d req s \<Longrightarrow>
   fst (logActivity d req s) =
     (if falsy_str (req_userId req) \<or> falsy_str (req_activityType req)
      then Inl ValidationError else Inl DuplicateLogError)"
  by (auto simp: logActivity_def accepted_def Let_def)

lemma logActivity_accepted:
  assumes "accepted d req s"
  shows "\<exists>nb s3.
      checkForNewBadges (the (req_userId req))
        (snd (updateStreak d (the (req_userId req)) (the (req_activityType req))
               (req_completed req \<noteq> Some False) (with_log d req s))) = Some (nb, s3)
    \<and> logActivity d req s =
        (Inr \<lparr>res_log = new_log d req,
              res_streakUpdate = fst (updateStreak d (the (req_userId req))
                 (the (req_activityType req)) (req_completed req \<noteq> Some False) (with_log d req s)),
              res_newBadges = nb,
              res_pointsAwarded = fst (awardPoints (the (req_userId req))
                 (the (req_activityType req)) (req_completed req) s3)\<rparr>,
         snd (awardPoints (the (req_userId req)) (the (req_activityType req))
                (req_completed req) s3))"
proof -
  let ?u = "the (req_userId req)" and ?t = "the (req_activityType req)"
  let ?s2 = "snd (updateStreak d ?u ?t (req_completed req \<noteq> Some False) (with_log d req s))"
  have "checkForNewBadges ?u ?s2 \<noteq> None"
    by (simp add: checkForNewBadges_defined updateStreak_found)
  then obtain nb s3 where c: "checkForNewBadges ?u ?s2 = Some (nb, s3)"
    by (cases "checkForNewBadges ?u ?s2") auto
  with assms show ?thesis
    by (simp add: logActivity_def accepted_def Let_def split_beta with_log_def new_log_def)
qed

lemma logActivity_accepted_fields:
  assumes "accepted d req s"
  shows "dailyHabits (snd (logActivity d req s)) = dailyHabits s @ [new_log d req]"
    and "userStreaks (snd (logActivity d req s)) =
         userStreaks (snd (updateStreak d (the (req_userId req)) (the (req_activityType req))
               (req_completed req \<noteq> Some False) (with_log d req s)))"
    and "rewardHistory (snd (logActivity d req s)) =
         rewardHistory (snd (awardPoints (the (req_userId req)) (the (req_activityType req))
                (req_completed req) s))"
    and "\<exists>ok. fst (logActivity d req s) = Inr ok \<and> res_log ok = new_log d req
            \<and> res_pointsAwarded ok = fst (awardPoints (the (req_userId req))
                 (the (req_activityType req)) (req_completed req) s)"
proof -
  from logActivity_accepted[OF assms] obtain nb s3 where
    c: "checkForNewBadges (the (req_userId req))
        (snd (updateStreak d (the (req_userId req)) (the (req_activityType req))
               (req_completed req \<noteq> Some False) (with_log d req s))) = Some (nb, s3)"
    and l: "snd (logActivity d req s) = snd (awardPoints (the (req_userId req)) (the (req_activityType req))
                (req_completed req) s3)"
    and f: "fst (logActivity d req s) = Inr \<lparr>res_log = new_log d req,
              res_streakUpdate = fst (updateStreak d (the (req_userId req))
                 (the (req_activityType req)) (req_completed req \<noteq> Some False) (with_log d req s)),
              res_newBadges = nb,
              res_pointsAwarded = fst (awardPoints (the (req_userId req))
                 (the (req_activityType req)) (req_completed req) s3)\<rparr>"
    by auto
  note fr = checkForNewBadges_frame[OF c, simplified]
  show "dailyHabits (snd (logActivity d req s)) = dailyHabits s @ [new_log d req]"
    by (simp add: l awardPoints_frame fr updateStreak_frame with_log_def)
  show "userStreaks (snd (logActivity d req s)) =
         userStreaks (snd (updateStreak d (the (req_userId req)) (the (req_activityType req))
               (req_completed req \<noteq> Some False) (with_log d req s)))"
    by (simp add: l awardPoints_frame fr)
  show "rewardHistory (snd (logActivity d req s)) =
         rewardHistory (snd (awardPoints (the (req_userId req)) (the (req_activityType req))
                (req_completed req) s))"
    by (simp add: l awardPoints_def Let_def fr updateStreak_frame with_log_def)
  show "\<exists>ok. fst (logActivity d req s) = Inr ok \<and> res_log ok = new_log d req
            \<and> res_pointsAwarded ok = fst (awardPoints (the (req_userId req))
                 (the (req_activityType req)) (req_completed req) s)"
    by (simp add: f awardPoints_def Let_def)
qed

section \<open>Rejection of a second log for the same key\<close>

text \<open>
  C2. When no log exists yet for (userId, activityType, date), a well-formed request for
  that key succeeds, and any further request for the same key on the same day is answered
  with \<open>DuplicateLogError\<close> and leaves the whole engine state (logs, streaks, badges,
  ledger) as the first call left it.
\<close>

theorem logActivity_duplicate_rejected:
  assumes "req_userId req = Some u" "u \<noteq> []" "req_activityType req = Some t" "t \<noteq> []"
    and "find (\<lambda>log. log_userId log = u \<and> log_activityType log = t \<and> log_date log = d)
           (dailyHabits s) = None"
    and "req_userId req' = Some u" "req_activityType req' = Some t"
  shows "\<exists>ok s1. logActivity d req s = (Inr ok, s1)
           \<and> logActivity d req' s1 = (Inl DuplicateLogError, s1)"
proof -
  have acc: "accepted d req s"
    using assms by (simp add: accepted_def falsy_str_def)
  obtain ok where ok: "fst (logActivity d req s) = Inr ok"
    using logActivity_accepted_fields(4)[OF acc] by blast
  define s1 where "s1 = snd (logActivity d req s)"
  have "dailyHabits s1 = dailyHabits s @ [new_log d req]"
    unfolding s1_def by (rule logActivity_accepted_fields(1)[OF acc])
  then have "find (\<lambda>log. log_userId log = u \<and> log_activityType log = t \<and> log_date log = d)
           (dailyHabits s1) \<noteq> None"
    using assms by (simp add: find_append new_log_def split: option.splits)
  then have nacc: "\<not> accepted d req' s1"
    using assms by (simp add: accepted_def)
  have "logActivity d req' s1 = (Inl DuplicateLogError, s1)"
    using logActivity_rejected[OF nacc] logActivity_rejected_error[OF nacc] assms
    by (simp add: falsy_str_def prod_eq_iff)
  moreover have "logActivity d req s = (Inr ok, s1)"
    using ok by (simp add: s1_def prod_eq_iff)
  ultimately show ?thesis by blast
qed

theorem logActivity_duplicate_rejected_witness:
  "\<exists>ok s1. logActivity 1 (activity_request ''alice'' ''workout'' True) empty_engine = (Inr ok, s1)
      \<and> logActivity 1 (activity_request ''alice'' ''workout'' True) s1 = (Inl DuplicateLogError, s1)"
  using logActivity_duplicate_rejected[of "activity_request ''alice'' ''workout'' True"
      "''alice''" "''workout''" 1 empty_engine "activity_request ''alice'' ''workout'' True"]
  by (simp add: activity_request_def empty_engine_def)

lemma find_filter_same: "find P (filter P xs) = find P xs"
  by (induction xs) auto

lemma lookupStreak_cong:
  assumes "filter (\<lambda>streak. streak_userId streak = u) (userStreaks s')
         = filter (\<lambda>streak. streak_userId streak = u) (userStreaks s)"
  shows "lookupStreak s' u = lookupStreak s u"
proof -
  have "find (\<lambda>streak. streak_userId streak = u) (userStreaks s')
      = find (\<lambda>streak. streak_userId streak = u) (userStreaks s)"
    using assms find_filter_same[of "\<lambda>streak. streak_userId streak = u"] by metis
  then show ?thesis by (simp add: lookupStreak_def)
qed

lemma lookupStreak_with_log: "lookupStreak (with_log d req s) u = lookupStreak s u"
  by (simp add: lookupStreak_def with_log_def)

section \<open>Frame of a log request\<close>

text \<open>
  C10. A log request for (userId, activityType) leaves, for every user and every other
  activity type, both the current and the longest streak as they were (read the way the
  streaks route reads them, where a user without a record has the initial record), and it
  leaves the records of every other user in \<open>userStreaks\<close> untouched.
\<close>

theorem logActivity_frame:
  "(\<forall>u t'. req_activityType req \<noteq> Some t' \<longrightarrow>
       obj_get (streaks (lookupStreak (snd (logActivity d req s)) u)) t'
         = obj_get (streaks (lookupStreak s u)) t'
     \<and> obj_get (longestStreaks (lookupStreak (snd (logActivity d req s)) u)) t'
         = obj_get (longestStreaks (lookupStreak s u)) t')
   \<and> (\<forall>u'. req_userId req \<noteq> Some u' \<longrightarrow>
       filter (\<lambda>streak. streak_userId streak = u') (userStreaks (snd (logActivity d req s)))
         = filter (\<lambda>streak. streak_userId streak = u') (userStreaks s))"
proof (cases "accepted d req s")
  case False
  then show ?thesis by (simp add: logActivity_rejected)
next
  case True
  let ?u = "the (req_userId req)" and ?t = "the (req_activityType req)"
  let ?c = "req_completed req \<noteq> Some False"
  let ?s' = "snd (logActivity d req s)"
  from True have some: "req_userId req = Some ?u" "req_activityType req = Some ?t"
    by (auto simp: accepted_def falsy_str_def)
  have us: "userStreaks ?s' = userStreaks (snd (updateStreak d ?u ?t ?c (with_log d req s)))"
    by (rule logActivity_accepted_fields(2)[OF True])
  have other: "filter (\<lambda>streak. streak_userId streak = u') (userStreaks ?s')
         = filter (\<lambda>streak. streak_userId streak = u') (userStreaks s)" if "u' \<noteq> ?u" for u'
    using that by (simp add: us updateStreak_other_users) (simp add: with_log_def)
  have own: "lookupStreak ?s' ?u
      = bump_streak ?t ?c (yesterdayActivity d ?u ?t (with_log d req s)) (lookupStreak s ?u)"
  proof -
    have "lookupStreak ?s' ?u = lookupStreak (snd (updateStreak d ?u ?t ?c (with_log d req s))) ?u"
      by (rule lookupStreak_cong) (simp add: us)
    then show ?thesis by (simp add: lookupStreak_updateStreak lookupStreak_with_log)
  qed
  have counters: "obj_get (streaks (lookupStreak ?s' u)) t' = obj_get (streaks (lookupStreak s u)) t'
     \<and> obj_get (longestStreaks (lookupStreak ?s' u)) t'
         = obj_get (longestStreaks (lookupStreak s u)) t'" if "t' \<noteq> ?t" for u t'
  proof (cases "u = ?u")
    case True
    with that show ?thesis by (simp add: own bump_streak_other)
  next
    case False
    then have "lookupStreak ?s' u = lookupStreak s u"
      by (intro lookupStreak_cong other)
    then show ?thesis by simp
  qed
  show ?thesis
  proof (intro conjI allI impI)
    fix u t' assume "req_activityType req \<noteq> Some t'"
    then have "t' \<noteq> ?t" using some by auto
    then show "obj_get (streaks (lookupStreak ?s' u)) t' = obj_get (streaks (lookupStreak s u)) t'"
      and "obj_get (longestStreaks (lookupStreak ?s' u)) t'
         = obj_get (longestStreaks (lookupStreak s u)) t'"
      using counters by blast+
  next
    fix u' assume "req_userId req \<noteq> Some u'"
    then have "u' \<noteq> ?u" using some by auto
    then show "filter (\<lambda>streak. streak_userId streak = u') (userStreaks ?s')
         = filter (\<lambda>streak. streak_userId streak = u') (userStreaks s)"
      by (rule other)
  qed
qed


theorem logActivity_frame_witness:
  "req_activityType (activity_request ''alice'' ''workout'' True) \<noteq> Some ''fitness''
   \<and> obj_get (streaks (lookupStreak
         (snd (logActivity 1 (activity_request ''alice'' ''workout'' True) empty_engine))
         ''alice'')) ''fitness'' = Num 0
   \<and> req_userId (activity_request ''alice'' ''workout'' True) \<noteq> Some ''bob''
   \<and> filter (\<lambda>streak. streak_userId streak = ''bob'')
        (userStreaks (snd (logActivity 1 (activity_request ''alice'' ''workout'' True)
           empty_engine))) = []"
  using logActivity_frame[of "activity_request ''alice'' ''workout'' True" 1 empty_engine]
  by (simp add: activity_request_def lookupStreak_def empty_engine_def newStreak_def obj_get_def)

section \<open>Points in the ledger\<close>

lemma points_for_plain: "proto_of_key t = None \<Longrightarrow> is_num (points_for t)"
  by (auto simp: points_for_def obj_get_def activity_points_def)

lemma total_append:
  "calculateTotalPoints (s\<lparr>rewardHistory := rewardHistory s @ [e]\<rparr>) u =
     (if entry_userId e = u then js_add (calculateTotalPoints s u) (points_or_0 e)
      else calculateTotalPoints s u)"
  by (simp add: calculateTotalPoints_def)

lemma total_cong:
  "rewardHistory s' = rewardHistory s \<Longrightarrow> calculateTotalPoints s' u = calculateTotalPoints s u"
  by (simp add: calculateTotalPoints_def)

lemma points_or_0_num: "is_num p \<Longrightarrow> points_or_0 (PointsAward u t p) = Num (num_value p)"
  by (cases p) (auto simp: points_or_0_def)

lemma awardPoints_total:
  assumes "proto_of_key t = None" and "calculateTotalPoints s u' = Num n"
  shows "calculateTotalPoints (snd (awardPoints u t c s)) u' =
           Num (n + (if u = u' then num_value (fst (awardPoints u t c s)) else 0))"
  using assms points_for_plain[OF assms(1)]
  by (auto simp: awardPoints_def Let_def total_append points_or_0_num)

lemma logActivity_total:
  assumes "plain_type req" and "calculateTotalPoints s u = Num n"
  shows "calculateTotalPoints (snd (logActivity d req s)) u =
           Num (n + activity_points_of u (fst (logActivity d req s)))"
proof (cases "accepted d req s")
  case False
  then show ?thesis
    using assms(2)
    by (simp add: logActivity_rejected logActivity_rejected_error activity_points_of_def)
next
  case True
  then have "req_activityType req = Some (the (req_activityType req))"
    by (auto simp: accepted_def falsy_str_def)
  with assms(1) have plain: "proto_of_key (the (req_activityType req)) = None"
    by (simp add: plain_type_def split: option.splits)
  from logActivity_accepted_fields(4)[OF True] obtain ok where
    ok: "fst (logActivity d req s) = Inr ok" "res_log ok = new_log d req"
      "res_pointsAwarded ok = fst (awardPoints (the (req_userId req))
                 (the (req_activityType req)) (req_completed req) s)"
    by blast
  have "calculateTotalPoints (snd (logActivity d req s)) u =
        calculateTotalPoints (snd (awardPoints (the (req_userId req))
                 (the (req_activityType req)) (req_completed req) s)) u"
    by (rule total_cong) (rule logActivity_accepted_fields(3)[OF True])
  then show ?thesis
    using awardPoints_total[OF plain assms(2)]
    by (simp add: ok activity_points_of_def new_log_def)
qed

text \<open>
  C5 as amended. For a sequence of log requests whose activity types are not names of
  properties inherited from \<open>Object.prototype\<close>, starting where the user's total is a
  number, the total after the sequence is the total before plus the sum of the activity
  points reported to that user (\<open>pointsAwarded\<close>); \<open>awardBadge\<close> appends nothing to
  \<open>rewardHistory\<close>, so badge points never enter the total.
\<close>

theorem total_points_are_activity_points:
  assumes "list_all (\<lambda>dr. plain_type (snd dr)) reqs" and "calculateTotalPoints s u = Num n"
  shows "calculateTotalPoints (snd (run reqs s)) u =
           Num (n + activity_points_awarded u (fst (run reqs s)))
   \<and> rewardHistory (snd (awardBadge u' b s)) = rewardHistory s"
proof
  show "calculateTotalPoints (snd (run reqs s)) u =
           Num (n + activity_points_awarded u (fst (run reqs s)))"
    using assms
  proof (induction reqs arbitrary: s n)
    case Nil
    then show ?case by (simp add: activity_points_awarded_def)
  next
    case (Cons a reqs)
    obtain d req where a: "a = (d, req)" by (cases a)
    from Cons.prems have p: "plain_type req" "list_all (\<lambda>dr. plain_type (snd dr)) reqs"
      by (simp_all add: a)
    note step = logActivity_total[OF p(1) Cons.prems(2), of d]
    show ?case
      using Cons.IH[OF p(2) step]
      by (simp add: a split_beta Let_def activity_points_awarded_def add.assoc)
  qed
  show "rewardHistory (snd (awardBadge u' b s)) = rewardHistory s"
    by (rule awardBadge_frame)
qed

theorem total_points_are_activity_points_witness:
  "list_all (\<lambda>dr. plain_type (snd dr)) fitness_week
   \<and> calculateTotalPoints empty_engine ''alice'' = Num 0
   \<and> calculateTotalPoints (snd (run fitness_week empty_engine)) ''alice'' = Num 35
   \<and> activity_points_awarded ''alice'' (fst (run fitness_week empty_engine)) = 35"
proof -
  have p: "list_all (\<lambda>dr. plain_type (snd dr)) fitness_week"
    by code_simp
  have z: "calculateTotalPoints empty_engine ''alice'' = Num 0"
    by code_simp
  have a: "activity_points_awarded ''alice'' (fst (run fitness_week empty_engine)) = 35"
    by code_simp
  show ?thesis
    using total_points_are_activity_points[OF p z] p z a by simp
qed

text \<open>
  C5 as stated fails: after seven consecutive days the seventh response reports the new
  badge \<open>7-day-streak\<close>, worth 50 points in the catalog, while the total is the 35
  activity points and not 85.
\<close>

theorem badge_points_missing_from_ledger:
  "map (\<lambda>r. case r of Inl e \<Rightarrow> [] | Inr ok \<Rightarrow> map (map_option badgeId) (res_newBadges ok))
       (fst (run fitness_week empty_engine))
     = [[], [], [], [], [], [], [Some ''7-day-streak'']]
   \<and> catalog_points ''7-day-streak'' = 50
   \<and> spec_awarded_points ''alice'' (fst (run fitness_week empty_engine)) = 85
   \<and> calculateTotalPoints (snd (run fitness_week empty_engine)) ''alice'' = Num 35
   \<and> calculateTotalPoints (snd (run fitness_week empty_engine)) ''alice''
       \<noteq> Num (spec_awarded_points ''alice'' (fst (run fitness_week empty_engine)))"
  by code_simp

section \<open>The redeem route\<close>

lemma redeem_unbound: "redeem None userId rid s = (Inl InternalError, s)"
  by (simp add: redeem_def)

lemma redeem_bound_total_unchanged:
  assumes "redeem (Some f) userId rid s = (Inr ok, s')" and "calculateTotalPoints s u = Num n"
  shows "calculateTotalPoints s' u = Num n"
  using assms
  by (auto simp: redeem_def Let_def total_append points_or_0_def
      split: option.splits if_splits)

section \<open>The leaderboard on ledgers of plain user ids\<close>

text \<open>
  When no user id of the ledger names an inherited property and every entry carries a
  number, the leaderboard has one row per user with the sum of that user's points and the
  badge count, in descending order, cut to the first \<open>limit\<close> rows, with ranks from 1.
\<close>

lemma plain_key_not_proto: "proto_of_key k = None \<Longrightarrow> k \<noteq> ''__proto__''"
  by (auto simp: proto_of_key_def proto_keys_def)

lemma keys_obj_set:
  "fst ` set (obj_set kvs k v) =
     (if k = ''__proto__'' \<and> k \<notin> fst ` set kvs then fst ` set kvs
      else insert k (fst ` set kvs))"
proof -
  have "x \<in> fst ` set (obj_set kvs k v) \<longleftrightarrow>
        x \<in> (if k = ''__proto__'' \<and> k \<notin> fst ` set kvs then fst ` set kvs
              else insert k (fst ` set kvs))" for x
  proof -
    have "x \<in> fst ` set (obj_set kvs k v) \<longleftrightarrow> map_of (obj_set kvs k v) x \<noteq> None"
      by (simp add: map_of_eq_None_iff)
    also have "\<dots> \<longleftrightarrow> x \<in> (if k = ''__proto__'' \<and> k \<notin> fst ` set kvs then fst ` set kvs
              else insert k (fst ` set kvs))"
      by (cases "x = k"; cases "k = ''__proto__''"; cases "k \<in> fst ` set kvs")
        (simp_all add: map_of_obj_set map_of_eq_None_iff)
    finally show ?thesis .
  qed
  then show ?thesis by blast
qed

lemma distinct_obj_set: "distinct (map fst kvs) \<Longrightarrow> distinct (map fst (obj_set kvs k v))"
  by (induction kvs) (auto simp: keys_obj_set split: if_splits)

lemma is_num_conv: "is_num v \<longleftrightarrow> v = Num (num_value v)"
  by (cases v) auto

lemma map_of_add_reward:
  assumes "proto_of_key (entry_userId r) = None" and "is_num (points_or_0 r)"
    and "\<And>k v. map_of up k = Some v \<Longrightarrow> is_num v"
  shows "map_of (add_reward up r) u =
     (if u = entry_userId r
      then Some (Num (own_value up u + num_value (points_or_0 r)))
      else map_of up u)"
proof -
  let ?uid = "entry_userId r"
  let ?up1 = "if truthy (obj_get up ?uid) then up else obj_set up ?uid (Num 0)"
  have np: "?uid \<noteq> ''__proto__''" using assms(1) by (rule plain_key_not_proto)
  have g1: "obj_get ?up1 ?uid = Num (own_value up ?uid)"
  proof (cases "map_of up ?uid")
    case None
    then show ?thesis
      using assms(1) np by (simp add: obj_get_def own_value_def map_of_obj_set)
  next
    case (Some v)
    then have "v = Num (num_value v)" using assms(3) is_num_conv by blast
    then obtain n where v: "v = Num n" by blast
    show ?thesis using Some np
      by (cases "n = 0") (simp_all add: obj_get_def own_value_def map_of_obj_set v)
  qed
  obtain p where p: "points_or_0 r = Num p" using assms(2) is_num_conv by blast
  have "add_reward up r = obj_set ?up1 ?uid (Num (own_value up ?uid + p))"
    unfolding add_reward_def Let_def g1 p by simp
  then show ?thesis
    using np by (simp add: map_of_obj_set p)
qed

lemma keys_add_reward:
  assumes "proto_of_key (entry_userId r) = None"
  shows "fst ` set (add_reward up r) = insert (entry_userId r) (fst ` set up)"
  using plain_key_not_proto[OF assms]
  by (auto simp: add_reward_def Let_def keys_obj_set)

lemma distinct_add_reward: "distinct (map fst up) \<Longrightarrow> distinct (map fst (add_reward up r))"
  by (simp add: add_reward_def Let_def distinct_obj_set)

lemma ledger_sum_snoc:
  "ledger_sum (rh @ [r]) u =
     ledger_sum rh u + (if entry_userId r = u then num_value (points_or_0 r) else 0)"
  by (simp add: ledger_sum_def)

lemma ledger_sum_absent: "u \<notin> entry_userId ` set rh \<Longrightarrow> ledger_sum rh u = 0"
proof -
  assume "u \<notin> entry_userId ` set rh"
  then have "filter (\<lambda>reward. entry_userId reward = u) rh = []"
    by (auto simp: filter_empty_conv image_iff)
  then show ?thesis by (simp add: ledger_sum_def)
qed

lemma userPoints_props:
  assumes "plain_ledger rh"
  shows "distinct (map fst (foldl add_reward [] rh))
   \<and> fst ` set (foldl add_reward [] rh) = entry_userId ` set rh
   \<and> (\<forall>u. map_of (foldl add_reward [] rh) u =
        (if u \<in> entry_userId ` set rh then Some (Num (ledger_sum rh u)) else None))"
  using assms
proof (induction rh rule: rev_induct)
  case Nil
  then show ?case by simp
next
  case (snoc r rh)
  let ?up = "foldl add_reward [] rh"
  from snoc.prems have pl: "plain_ledger rh" and pr: "proto_of_key (entry_userId r) = None"
    and nr: "is_num (points_or_0 r)"
    by (simp_all add: plain_ledger_def)
  note ih = snoc.IH[OF pl]
  have nums: "is_num v" if "map_of ?up k = Some v" for k v
    using that ih by (auto split: if_splits)
  have val: "own_value ?up u = ledger_sum rh u" for u
    using ih by (simp add: own_value_def ledger_sum_absent)
  have "distinct (map fst (foldl add_reward [] (rh @ [r])))"
    using ih by (simp add: distinct_add_reward)
  moreover have "fst ` set (foldl add_reward [] (rh @ [r])) = entry_userId ` set (rh @ [r])"
    using ih keys_add_reward[OF pr, of ?up] by simp
  moreover have "map_of (foldl add_reward [] (rh @ [r])) u =
        (if u \<in> entry_userId ` set (rh @ [r]) then Some (Num (ledger_sum (rh @ [r]) u))
         else None)" for u
  proof -
    have step: "map_of (add_reward ?up r) u =
       (if u = entry_userId r
        then Some (Num (own_value ?up u + num_value (points_or_0 r)))
        else map_of ?up u)"
      using pr nr
    proof (rule map_of_add_reward)
      fix k v assume "map_of ?up k = Some v"
      then show "is_num v" by (rule nums)
    qed
    show ?thesis
      using ih val[of u] by (auto simp: step ledger_sum_snoc)
  qed
  ultimately show ?case by blast
qed

lemma foldl_js_add_num:
  assumes "list_all (\<lambda>r. is_num (f r)) xs"
  shows "foldl (\<lambda>total r. js_add total (f r)) (Num a) xs
           = Num (a + sum_list (map (\<lambda>r. num_value (f r)) xs))"
  using assms
proof (induction xs arbitrary: a)
  case Nil
  then show ?case by simp
next
  case (Cons x xs)
  then obtain p where p: "f x = Num p" using is_num_conv by auto
  show ?case using Cons by (simp add: p add.assoc)
qed

lemma total_plain:
  assumes "plain_ledger (rewardHistory s)"
  shows "calculateTotalPoints s u = Num (ledger_sum (rewardHistory s) u)"
proof -
  have "list_all (\<lambda>r. is_num (points_or_0 r))
          (filter (\<lambda>reward. entry_userId reward = u) (rewardHistory s))"
    using assms by (auto simp: plain_ledger_def list_all_iff)
  then show ?thesis
    by (simp add: calculateTotalPoints_def foldl_js_add_num ledger_sum_def)
qed

lemma set_object_entries: "set (object_entries obj) = set obj"
  by (auto simp: object_entries_def)

lemma distinct_object_entries: "distinct obj \<Longrightarrow> distinct (object_entries obj)"
  by (auto simp: object_entries_def)

lemma distinct_keys_transfer:
  assumes "distinct (map fst xs)" "set ys = set xs" "distinct ys"
  shows "distinct (map fst ys)"
  using assms by (simp add: distinct_map)

lemma ranked_totals_props:
  assumes pl: "plain_ledger (rewardHistory s)"
  shows "distinct (map fst (ranked_totals s))"
    and "fst ` set (ranked_totals s) = user_ids s"
    and "(u, p) \<in> set (ranked_totals s) \<Longrightarrow> p = calculateTotalPoints s u"
    and "length (ranked_totals s) = card (user_ids s)"
    and "sorted (map (\<lambda>entry. - num_value (snd entry)) (ranked_totals s))"
    and "sort_by_points (object_entries (foldl add_reward [] (rewardHistory s)))
           = Some (ranked_totals s)"
proof -
  let ?up = "foldl add_reward [] (rewardHistory s)"
  note up = userPoints_props[OF pl]
  have d: "distinct (map fst ?up)" and k: "fst ` set ?up = entry_userId ` set (rewardHistory s)"
    using up by blast+
  have dup: "distinct ?up" using d by (simp add: distinct_map)
  have st: "set (ranked_totals s) = set ?up"
    by (simp add: ranked_totals_def set_object_entries)
  have dr: "distinct (ranked_totals s)"
    by (simp add: ranked_totals_def distinct_object_entries dup)
  show dk: "distinct (map fst (ranked_totals s))"
    using d st dr by (rule distinct_keys_transfer)
  show ks: "fst ` set (ranked_totals s) = user_ids s"
    using k by (simp add: st user_ids_def)
  have val: "v = calculateTotalPoints s w" if "(w, v) \<in> set ?up" for w v
  proof -
    from that have "map_of ?up w = Some v" using d by simp
    then show ?thesis using up by (auto simp: total_plain[OF pl] split: if_splits)
  qed
  show "p = calculateTotalPoints s u" if "(u, p) \<in> set (ranked_totals s)"
    using that val by (simp add: st)
  have "length (ranked_totals s) = length (map fst (ranked_totals s))" by simp
  also have "\<dots> = card (set (map fst (ranked_totals s)))"
    using distinct_card[OF dk] by simp
  also have "\<dots> = card (user_ids s)" using ks by simp
  finally show "length (ranked_totals s) = card (user_ids s)" .
  show "sorted (map (\<lambda>entry. - num_value (snd entry)) (ranked_totals s))"
    by (simp add: ranked_totals_def)
  have "is_num (snd e)" if "e \<in> set (object_entries ?up)" for e
  proof -
    from that have "(fst e, snd e) \<in> set ?up" by (simp add: set_object_entries)
    then have "snd e = calculateTotalPoints s (fst e)" by (rule val)
    then show ?thesis by (simp add: total_plain[OF pl])
  qed
  then have "list_all (\<lambda>entry. is_num (snd entry)) (object_entries ?up)"
    by (simp add: list_all_iff)
  then show "sort_by_points (object_entries ?up) = Some (ranked_totals s)"
    by (simp add: sort_by_points_def ranked_totals_def)
qed

lemma generateLeaderboard_plain:
  assumes "0 \<le> limit" and "plain_ledger (rewardHistory s)"
  shows "generateLeaderboard rankBy limit s = Some (leaderboard_rows rankBy limit s)"
  using assms(1)
  by (simp add: generateLeaderboard_def ranked_totals_props(6)[OF assms(2)] Let_def
      js_slice0_def leaderboard_rows_def)

lemma map_snd_part_enumerate: "map (\<lambda>p. g (snd p)) (enumerate n xs) = map g xs"
  by (induction xs arbitrary: n) simp_all

lemma map_fst_part_enumerate:
  "map (\<lambda>p. h (fst p)) (enumerate n xs) = map h [n..<n + length xs]"
proof -
  have "map h [n..<n + length xs] = map h (map fst (enumerate n xs))"
    by (simp only: map_fst_enumerate)
  also have "\<dots> = map (\<lambda>p. h (fst p)) (enumerate n xs)"
    by (simp only: map_map comp_def)
  finally show ?thesis by (rule sym)
qed

lemma leaderboard_rows_proj:
  shows "map row_userId (leaderboard_rows rankBy limit s)
           = map fst (take (nat limit) (ranked_totals s))"
    and "map row_points (leaderboard_rows rankBy limit s)
           = map snd (take (nat limit) (ranked_totals s))"
    and "map row_rank (leaderboard_rows rankBy limit s)
           = map (\<lambda>i. int i + 1) [0..<length (take (nat limit) (ranked_totals s))]"
    and "map (\<lambda>row. (row_userId row, row_badges row)) (leaderboard_rows rankBy limit s)
           = map (\<lambda>entry. (fst entry, length (filter (\<lambda>badge. badge_userId badge = fst entry)
                                                  (userBadges s))))
               (take (nat limit) (ranked_totals s))"
proof -
  let ?top = "take (nat limit) (ranked_totals s)"
  let ?row = "\<lambda>(index, userId, points).
                \<lparr>row_rank = int index + 1, row_userId = userId, row_points = points,
                 row_badges = length (filter (\<lambda>badge. badge_userId badge = userId)
                                        (userBadges s))\<rparr>"
  have g: "leaderboard_rows rankBy limit s = map ?row (enumerate 0 ?top)"
    by (simp add: leaderboard_rows_def)
  have "map row_userId (map ?row (enumerate 0 ?top))
      = map (\<lambda>p. fst (snd p)) (enumerate 0 ?top)"
    by (simp add: split_beta comp_def)
  then show "map row_userId (leaderboard_rows rankBy limit s) = map fst ?top"
    using map_snd_part_enumerate[of fst 0 ?top] by (simp only: g)
  have "map row_points (map ?row (enumerate 0 ?top))
      = map (\<lambda>p. snd (snd p)) (enumerate 0 ?top)"
    by (simp add: split_beta comp_def)
  then show "map row_points (leaderboard_rows rankBy limit s) = map snd ?top"
    using map_snd_part_enumerate[of snd 0 ?top] by (simp only: g)
  have "map row_rank (map ?row (enumerate 0 ?top))
      = map (\<lambda>p. int (fst p) + 1) (enumerate 0 ?top)"
    by (simp add: split_beta comp_def)
  also have "\<dots> = map (\<lambda>i. int i + 1) [0..<0 + length ?top]"
    by (rule map_fst_part_enumerate)
  finally show "map row_rank (leaderboard_rows rankBy limit s)
           = map (\<lambda>i. int i + 1) [0..<length ?top]"
    by (simp only: g add_0)
  have "map (\<lambda>row. (row_userId row, row_badges row)) (map ?row (enumerate 0 ?top))
      = map (\<lambda>p. (fst (snd p), length (filter (\<lambda>badge. badge_userId badge = fst (snd p))
                                                  (userBadges s))))
          (enumerate 0 ?top)"
    by (simp add: split_beta comp_def)
  then show "map (\<lambda>row. (row_userId row, row_badges row)) (leaderboard_rows rankBy limit s)
           = map (\<lambda>entry. (fst entry, length (filter (\<lambda>badge. badge_userId badge = fst entry)
                                                  (userBadges s))))
               ?top"
    using map_snd_part_enumerate[of "\<lambda>entry. (fst entry,
        length (filter (\<lambda>badge. badge_userId badge = fst entry) (userBadges s)))" 0 ?top]
    by (simp only: g)
qed

lemma ranked_three_users:
  assumes pl: "plain_ledger (rewardHistory s)"
    and u: "user_ids s = {a, b, c}"
    and t: "calculateTotalPoints s a = Num 100" "calculateTotalPoints s b = Num 50"
      "calculateTotalPoints s c = Num 75"
  shows "ranked_totals s = [(a, Num 100), (c, Num 75), (b, Num 50)]"
proof -
  note rp = ranked_totals_props[OF pl]
  from t have ne: "a \<noteq> b" "a \<noteq> c" "b \<noteq> c" by auto
  then have "card (user_ids s) = 3" by (simp add: u)
  then have "length (ranked_totals s) = 3" by (simp add: rp(4))
  then obtain x y z where r: "ranked_totals s = [x, y, z]"
    by (auto simp: length_Suc_conv numeral_3_eq_3)
  obtain xu xp yu yp zu zp where xyz: "x = (xu, xp)" "y = (yu, yp)" "z = (zu, zp)"
    by (cases x, cases y, cases z) auto
  have d: "xu \<noteq> yu" "xu \<noteq> zu" "yu \<noteq> zu"
    using rp(1) by (auto simp: r xyz)
  have k: "{xu, yu, zu} = {a, b, c}"
    using rp(2) by (simp add: r xyz u)
  have p: "xp = calculateTotalPoints s xu" "yp = calculateTotalPoints s yu"
    "zp = calculateTotalPoints s zu"
    using rp(3) by (auto simp: r xyz)
  have o: "num_value yp \<le> num_value xp" "num_value zp \<le> num_value yp"
    using rp(5) by (auto simp: r xyz)
  have "xu \<in> {a, b, c}" "yu \<in> {a, b, c}" "zu \<in> {a, b, c}" using k by auto
  then have "xu = a \<and> yu = c \<and> zu = b"
    using d p o t by auto
  then show ?thesis using p t by (simp add: r xyz)
qed

lemma snd_in_enumerate:
  assumes "p \<in> set (enumerate n xs)"
  shows "snd p \<in> set xs"
proof -
  from assms have "snd p \<in> snd ` set (enumerate n xs)" by (rule imageI)
  also have "snd ` set (enumerate n xs) = set (map snd (enumerate n xs))"
    by (simp only: set_map)
  also have "\<dots> = set xs" by (simp only: map_snd_enumerate)
  finally show ?thesis .
qed

lemma leaderboard_row_in_top:
  assumes "row \<in> set (leaderboard_rows rankBy limit s)"
  shows "(row_userId row, row_points row) \<in> set (take (nat limit) (ranked_totals s))"
    and "row_badges row
           = length (filter (\<lambda>badge. badge_userId badge = row_userId row) (userBadges s))"
proof -
  let ?top = "take (nat limit) (ranked_totals s)"
  let ?row = "\<lambda>(index, userId, points).
                \<lparr>row_rank = int index + 1, row_userId = userId, row_points = points,
                 row_badges = length (filter (\<lambda>badge. badge_userId badge = userId)
                                        (userBadges s))\<rparr>"
  have g: "leaderboard_rows rankBy limit s = map ?row (enumerate 0 ?top)"
    by (simp add: leaderboard_rows_def)
  from assms obtain i u p where ip: "(i, u, p) \<in> set (enumerate 0 ?top)"
    and row: "row = ?row (i, u, p)"
    unfolding g by auto
  from snd_in_enumerate[OF ip] have "(u, p) \<in> set ?top"
    by simp
  then show "(row_userId row, row_points row) \<in> set ?top"
    by (simp add: row)
  show "row_badges row
           = length (filter (\<lambda>badge. badge_userId badge = row_userId row) (userBadges s))"
    by (simp add: row)
qed

lemma sorted_wrt_take_drop:
  assumes "sorted_wrt R xs" "x \<in> set (take n xs)" "y \<in> set (drop n xs)"
  shows "R x y"
proof -
  have "sorted_wrt R (take n xs @ drop n xs)" using assms(1) by simp
  then show ?thesis using assms(2,3) unfolding sorted_wrt_append by blast
qed

lemma ranked_totals_descending:
  assumes "plain_ledger (rewardHistory s)"
  shows "sorted_wrt (\<lambda>x y. num_value (snd y) \<le> num_value (snd x)) (ranked_totals s)"
  using ranked_totals_props(5)[OF assms] by (simp add: sorted_map)

lemma ranks_from_one: "map (\<lambda>i. int i + 1) [0..<n] = map int [1..<Suc n]"
  by (induction n) simp_all

lemma generateLeaderboard_on_plain_ledger:
  assumes "0 \<le> limit" and pl: "plain_ledger (rewardHistory s)"
  shows "\<exists>rows. generateLeaderboard rankBy limit s = Some rows
   \<and> distinct (map row_userId rows)
   \<and> (\<forall>row \<in> set rows.
         row_userId row \<in> entry_userId ` set (rewardHistory s)
       \<and> row_points row = calculateTotalPoints s (row_userId row)
       \<and> row_badges row
           = length (filter (\<lambda>badge. badge_userId badge = row_userId row) (userBadges s)))
   \<and> sorted_wrt (\<lambda>p q. num_value p \<ge> num_value q) (map row_points rows)
   \<and> length rows = min (nat limit) (card (entry_userId ` set (rewardHistory s)))
   \<and> (\<forall>u \<in> entry_userId ` set (rewardHistory s). u \<notin> row_userId ` set rows \<longrightarrow>
         (\<forall>row \<in> set rows.
            num_value (calculateTotalPoints s u) \<le> num_value (row_points row)))
   \<and> map row_rank rows = map int [1..<Suc (length rows)]
   \<and> (\<forall>a b c. entry_userId ` set (rewardHistory s) = {a, b, c}
         \<and> calculateTotalPoints s a = Num 100 \<and> calculateTotalPoints s b = Num 50
         \<and> calculateTotalPoints s c = Num 75 \<and> 3 \<le> limit \<longrightarrow>
         map (\<lambda>row. (row_rank row, row_userId row, row_points row)) rows
           = [(1, a, Num 100), (2, c, Num 75), (3, b, Num 50)])"
proof -
  define rows where "rows = leaderboard_rows rankBy limit s"
  let ?n = "nat limit"
  let ?top = "take ?n (ranked_totals s)"
  note rp = ranked_totals_props[OF pl]
  note desc = ranked_totals_descending[OF pl]
  note rw = leaderboard_rows_proj[of rankBy limit s, folded rows_def]
  note in_top = leaderboard_row_in_top[of _ rankBy limit s, folded rows_def]
  have c0: "generateLeaderboard rankBy limit s = Some rows"
    unfolding rows_def using assms by (rule generateLeaderboard_plain)
  have len: "length rows = length ?top"
  proof -
    have "length (map row_userId rows) = length (map fst ?top)" by (simp only: rw(1))
    then show ?thesis by (simp only: length_map)
  qed
  have in_ranked: "(row_userId row, row_points row) \<in> set (ranked_totals s)"
    if "row \<in> set rows" for row
    using in_top(1)[OF that] by (rule in_set_takeD)
  have c1: "distinct (map row_userId rows)"
  proof -
    have "distinct (take ?n (map fst (ranked_totals s)))"
      by (rule distinct_take) (rule rp(1))
    then show ?thesis by (simp only: rw(1) take_map)
  qed
  have c2: "\<forall>row \<in> set rows.
         row_userId row \<in> entry_userId ` set (rewardHistory s)
       \<and> row_points row = calculateTotalPoints s (row_userId row)
       \<and> row_badges row
           = length (filter (\<lambda>badge. badge_userId badge = row_userId row) (userBadges s))"
  proof
    fix row assume m: "row \<in> set rows"
    have "fst (row_userId row, row_points row) \<in> fst ` set (ranked_totals s)"
      using in_ranked[OF m] by (rule imageI)
    then have a: "row_userId row \<in> entry_userId ` set (rewardHistory s)"
      by (simp add: rp(2) user_ids_def)
    have b: "row_points row = calculateTotalPoints s (row_userId row)"
      using in_ranked[OF m] by (rule rp(3))
    from a b in_top(2)[OF m]
    show "row_userId row \<in> entry_userId ` set (rewardHistory s)
       \<and> row_points row = calculateTotalPoints s (row_userId row)
       \<and> row_badges row
           = length (filter (\<lambda>badge. badge_userId badge = row_userId row) (userBadges s))"
      by blast
  qed
  have c3: "sorted_wrt (\<lambda>p q. num_value p \<ge> num_value q) (map row_points rows)"
  proof -
    have "sorted_wrt (\<lambda>x y. num_value (snd y) \<le> num_value (snd x)) ?top"
      using desc by (rule sorted_wrt_take)
    then show ?thesis by (simp add: rw(2) sorted_wrt_map)
  qed
  have c4: "length rows = min ?n (card (entry_userId ` set (rewardHistory s)))"
    by (simp add: len rp(4) user_ids_def min.commute)
  have c5: "\<forall>u \<in> entry_userId ` set (rewardHistory s). u \<notin> row_userId ` set rows \<longrightarrow>
         (\<forall>row \<in> set rows.
            num_value (calculateTotalPoints s u) \<le> num_value (row_points row))"
  proof (intro ballI impI)
    fix u row
    assume u: "u \<in> entry_userId ` set (rewardHistory s)" and nu: "u \<notin> row_userId ` set rows"
      and m: "row \<in> set rows"
    from u have "u \<in> fst ` set (ranked_totals s)"
      by (simp add: rp(2) user_ids_def)
    then obtain p where p: "(u, p) \<in> set (ranked_totals s)" by force
    then have pt: "p = calculateTotalPoints s u" by (rule rp(3))
    have "set (map row_userId rows) = set (map fst ?top)" by (simp only: rw(1))
    then have "row_userId ` set rows = fst ` set ?top" by (simp only: set_map)
    with nu have "u \<notin> fst ` set ?top" by simp
    then have "(u, p) \<notin> set ?top" by force
    moreover have "set (ranked_totals s) = set ?top \<union> set (drop ?n (ranked_totals s))"
      by (simp only: set_append[symmetric] append_take_drop_id)
    ultimately have "(u, p) \<in> set (drop ?n (ranked_totals s))" using p by blast
    with desc in_top(1)[OF m]
    have "num_value (snd (u, p)) \<le> num_value (snd (row_userId row, row_points row))"
      by (rule sorted_wrt_take_drop)
    then show "num_value (calculateTotalPoints s u) \<le> num_value (row_points row)"
      by (simp add: pt)
  qed
  have c6: "map row_rank rows = map int [1..<Suc (length rows)]"
    by (simp only: rw(3) len ranks_from_one)
  have c7: "\<forall>a b c. entry_userId ` set (rewardHistory s) = {a, b, c}
         \<and> calculateTotalPoints s a = Num 100 \<and> calculateTotalPoints s b = Num 50
         \<and> calculateTotalPoints s c = Num 75 \<and> 3 \<le> limit \<longrightarrow>
         map (\<lambda>row. (row_rank row, row_userId row, row_points row)) rows
           = [(1, a, Num 100), (2, c, Num 75), (3, b, Num 50)]"
  proof (intro allI impI)
    fix a b c
    assume h: "entry_userId ` set (rewardHistory s) = {a, b, c}
         \<and> calculateTotalPoints s a = Num 100 \<and> calculateTotalPoints s b = Num 50
         \<and> calculateTotalPoints s c = Num 75 \<and> 3 \<le> limit"
    then have r: "ranked_totals s = [(a, Num 100), (c, Num 75), (b, Num 50)]"
      by (intro ranked_three_users[OF pl]) (simp_all add: user_ids_def)
    from h have "3 \<le> limit" by blast
    then have "3 \<le> ?n" by linarith
    then have t: "?top = [(a, Num 100), (c, Num 75), (b, Num 50)]"
      by (simp add: r)
    have l3: "length rows = 3" by (simp add: len t)
    then obtain r1 r2 r3 where rows3: "rows = [r1, r2, r3]"
      by (auto simp: length_Suc_conv numeral_3_eq_3)
    have "map row_userId rows = [a, c, b]" "map row_points rows = [Num 100, Num 75, Num 50]"
      "map row_rank rows = [1, 2, 3]"
      using rw(1) rw(2) rw(3) by (simp_all add: t upt_rec)
    then show "map (\<lambda>row. (row_rank row, row_userId row, row_points row)) rows
           = [(1, a, Num 100), (2, c, Num 75), (3, b, Num 50)]"
      by (simp add: rows3)
  qed
  from c0 c1 c2 c3 c4 c5 c6 c7 show ?thesis by blast
qed

lemma three_users_leaderboard:
  "generateLeaderboard ''points'' 10 three_users_engine
     = Some [\<lparr>row_rank = 1, row_userId = ''alice'', row_points = Num 100, row_badges = 0\<rparr>,
             \<lparr>row_rank = 2, row_userId = ''carol'', row_points = Num 75, row_badges = 0\<rparr>,
             \<lparr>row_rank = 3, row_userId = ''bob'', row_points = Num 50, row_badges = 0\<rparr>]"
  by code_simp

section \<open>Where the routes depart from the described behaviour\<close>

lemma bump_streak_keeps_longest:
  assumes "obj_get (streaks us) t = Num n" "obj_get (longestStreaks us) t = Num m"
    and "0 \<le> n" "n \<le> m"
  shows "js_ge (obj_get (longestStreaks (bump_streak t c y us)) t)
           (obj_get (streaks (bump_streak t c y us)) t)"
proof -
  from assms(1,2) have own: "map_of (streaks us) t \<noteq> None" "map_of (longestStreaks us) t \<noteq> None"
    by (auto dest: obj_get_Num)
  show ?thesis
    using assms own
    by (auto simp: bump_streak_def Let_def obj_get_obj_set_own js_gt_def js_inc_def)
qed

text \<open>
  C1. \<open>initializeUserStreak\<close> creates counters for five activity types only. For any other
  type \<open>longestStreaks[type]\<close> is \<open>undefined\<close>, the comparison
  \<open>streaks[type] > longestStreaks[type]\<close> is false, and the longest streak is never
  written: after the first completed log of \<open>workout\<close> the current streak is 1 and the
  longest streak is \<open>undefined\<close>, so \<open>longest >= current\<close> does not hold.
\<close>

theorem longest_streak_undefined_for_unlisted_type:
  "map (\<lambda>us. (streak_userId us, obj_get (streaks us) ''workout'',
               obj_get (longestStreaks us) ''workout''))
     (userStreaks (snd (logActivity 1 (activity_request ''alice'' ''workout'' True) empty_engine)))
     = [(''alice'', Num 1, Undefined)]
   \<and> \<not> js_ge Undefined (Num 1)"
  by code_simp

text \<open>
  C6. Five consecutive completed days of \<open>workout\<close> give a current streak of 5 and a miss
  on day six resets it to 0, but the longest streak is \<open>undefined\<close> throughout and not 5.
  The same six days of \<open>fitness\<close>, one of the five initial counters, end with 0 and 5.
\<close>

theorem five_days_then_miss_unlisted_type:
  "map (\<lambda>us. (obj_get (streaks us) ''workout'', obj_get (longestStreaks us) ''workout''))
     (userStreaks (snd (run workout_days empty_engine))) = [(Num 5, Undefined)]
   \<and> map (\<lambda>us. (obj_get (streaks us) ''workout'', obj_get (longestStreaks us) ''workout''))
     (userStreaks (snd (run (workout_days @ [(6, activity_request ''alice'' ''workout'' False)])
        empty_engine))) = [(Num 0, Undefined)]
   \<and> map (\<lambda>us. (obj_get (streaks us) ''fitness'', obj_get (longestStreaks us) ''fitness''))
     (userStreaks (snd (run (fitness_days @ [(6, activity_request ''alice'' ''fitness'' False)])
        empty_engine))) = [(Num 0, Num 5)]"
  by code_simp

text \<open>
  C3. The streak badges are guarded by a search of the badges already earned; the
  \<open>healthy-eating\<close> badge is not. Eight days of \<open>healthy-eating\<close> logs award it on day
  seven and again on day eight, so the user holds two badges with that \<open>badgeId\<close>.
\<close>

theorem healthy_eating_badge_awarded_twice:
  "map (\<lambda>r. case r of Inl e \<Rightarrow> [] | Inr ok \<Rightarrow> map (map_option badgeId) (res_newBadges ok))
       (fst (run healthy_eating_days empty_engine))
     = [[], [], [], [], [], [], [Some ''7-day-streak'', Some ''healthy-eating''],
        [Some ''healthy-eating'']]
   \<and> length (filter (\<lambda>badge. badge_userId badge = ''alice'' \<and> badgeId badge = ''healthy-eating'')
        (userBadges (snd (run healthy_eating_days empty_engine)))) = 2"
  by code_simp

text \<open>
  C4. The log and the streak use \<open>completed !== false\<close>, but \<open>awardPoints\<close> receives the
  raw field: for a request without \<open>completed\<close> the log is completed and the streak starts
  at 1, while \<open>awardPoints\<close> returns 0 and appends nothing, although \<open>workout\<close> is worth 20.
\<close>

theorem omitted_completed_awards_no_points:
  "map_sum id (\<lambda>ok. (log_completed (res_log ok), currentStreak (res_streakUpdate ok),
                      res_pointsAwarded ok))
     (fst (logActivity 1 request_without_completed empty_engine)) = Inr (True, Num 1, Num 0)
   \<and> rewardHistory (snd (logActivity 1 request_without_completed empty_engine)) = []
   \<and> points_for ''workout'' = Num 20"
  by code_simp

text \<open>
  C7. \<open>userPoints\<close> is a plain object keyed by the user id. For a user id that names an
  inherited property the guard \<open>!userPoints[id]\<close> does not fire and \<open>+=\<close> concatenates:
  after the user \<open>constructor\<close> has logged one \<open>workout\<close> (20 points in the ledger) the
  row of that user carries the string \<open>function Object() { [native code] }20\<close> instead of
  the sum 20, and after the user \<open>__proto__\<close> has done the same the assignment is dropped
  and the leaderboard has no row for that user.
\<close>

theorem leaderboard_breaks_on_inherited_user_id:
  "rewardHistory (after_workout ''constructor'')
     = [PointsAward ''constructor'' ''workout'' (Num 20)]
   \<and> calculateTotalPoints (after_workout ''constructor'') ''constructor'' = Num 20
   \<and> generateLeaderboard ''points'' 10 (after_workout ''constructor'')
       = Some [\<lparr>row_rank = 1, row_userId = ''constructor'',
                 row_points = Text [] P_constructor ''20'', row_badges = 0\<rparr>]
   \<and> to_string (Text [] P_constructor ''20'') = ''function Object() { [native code] }20''
   \<and> calculateTotalPoints (after_workout ''__proto__'') ''__proto__'' = Num 20
   \<and> generateLeaderboard ''points'' 10 (after_workout ''__proto__'') = Some []"
  by code_simp

text \<open>
  C8. The route calls \<open>getRewardById\<close>, a name the module does not bind: the call throws,
  and the route answers \<open>InternalError\<close> (500) to a request for any reward, whether the
  user has no points or enough, instead of \<open>NotFoundError\<close>, \<open>InsufficientPointsError\<close> or
  a redemption.
\<close>

theorem redeem_route_answers_internal_error:
  "redeem_route ''alice'' ''voucher'' empty_engine = (Inl InternalError, empty_engine)
   \<and> redeem_route ''alice'' ''voucher'' (after_workout ''alice'')
       = (Inl InternalError, after_workout ''alice'')"
  by (simp add: redeem_route_def redeem_unbound)


end
